theory Spec2Isabelle
  imports Complex_Main "HOL-Library.Sublist"
begin

section \<open>Python strings\<close>

text \<open>
  A Python \<open>str\<close> is modelled as a HOL \<open>string\<close>; one \<open>char\<close> stands for one code
  point below 256. The functions of this section are the \<open>str\<close> methods the
  repository calls.
\<close>

text \<open>\<open>s.replace(old, new)\<close>: every non-overlapping occurrence, scanning from the left.\<close>

function py_replace :: "string \<Rightarrow> string \<Rightarrow> string \<Rightarrow> string" where
  "py_replace old new [] = (if old = [] then new else [])"
| "py_replace old new (c # cs) =
     (if old = [] then new @ concat (map (\<lambda>x. x # new) (c # cs))
      else if prefix old (c # cs) then new @ py_replace old new (drop (length old) (c # cs))
      else c # py_replace old new cs)"
  by pat_completeness auto
termination
  by (relation "measure (\<lambda>(old, new, s). length s)") (auto simp: neq_Nil_conv)

text \<open>\<open>c.isspace()\<close> for a code point below 256.\<close>

definition py_isspace :: "char \<Rightarrow> bool" where
  "py_isspace c =
     (let n = (of_char c :: nat)
      in (9 \<le> n \<and> n \<le> 13) \<or> (28 \<le> n \<and> n \<le> 32) \<or> n = 133 \<or> n = 160)"

text \<open>\<open>s.strip()\<close> with no argument.\<close>

definition py_lstrip :: "string \<Rightarrow> string" where
  "py_lstrip s = dropWhile py_isspace s"

definition py_rstrip :: "string \<Rightarrow> string" where
  "py_rstrip s = rev (dropWhile py_isspace (rev s))"

definition py_strip :: "string \<Rightarrow> string" where
  "py_strip s = py_rstrip (py_lstrip s)"

text \<open>\<open>sep.join(xs)\<close>.\<close>

fun py_join :: "string \<Rightarrow> string list \<Rightarrow> string" where
  "py_join sep [] = []"
| "py_join sep [x] = x"
| "py_join sep (x # y # ys) = x @ sep @ py_join sep (y # ys)"

text \<open>\<open>s.endswith(t)\<close>.\<close>

definition endswith :: "string \<Rightarrow> string \<Rightarrow> bool" where
  "endswith s t = suffix t s"

text \<open>\<open>s.lower()\<close>, character by character, for code points below 256.\<close>

definition py_lower_char :: "char \<Rightarrow> char" where
  "py_lower_char c =
     (let n = (of_char c :: nat)
      in if (65 \<le> n \<and> n \<le> 90) \<or> (192 \<le> n \<and> n \<le> 222 \<and> n \<noteq> 215)
         then char_of (n + 32) else c)"

definition py_lower :: "string \<Rightarrow> string" where
  "py_lower s = map py_lower_char s"

text \<open>
  \<open>s.rsplit(sep, 1)\<close> for a one-character separator: the string itself when the
  separator does not occur, else the text before and the text after its last
  occurrence.
\<close>

definition rsplit1 :: "char \<Rightarrow> string \<Rightarrow> string list" where
  "rsplit1 sep s =
     (if sep \<in> set s
      then [rev (tl (dropWhile (\<lambda>c. c \<noteq> sep) (rev s))), rev (takeWhile (\<lambda>c. c \<noteq> sep) (rev s))]
      else [s])"

text \<open>\<open>str(n)\<close> for a non-negative integer.\<close>

definition digit_char :: "nat \<Rightarrow> char" where
  "digit_char d = char_of (48 + d)"

fun py_str_nat :: "nat \<Rightarrow> string" where
  "py_str_nat n = (if n < 10 then [digit_char n] else py_str_nat (n div 10) @ [digit_char (n mod 10)])"

text \<open>Truthiness of an optional string: \<open>None\<close> and the empty string are false.\<close>

fun truthy :: "string option \<Rightarrow> bool" where
  "truthy None = False"
| "truthy (Some s) = (s \<noteq> [])"


section \<open>Effects\<close>

text \<open>
  Every call that leaves the process (a remote service, the file system, the
  media library) is recorded as an event; what it returns or raises is read from
  a record of outcomes, the world. \<open>StepIs\<close> records each write of the \<open>step\<close> key
  of a run's status record, which is what a poller of \<open>/status\<close> can observe.
\<close>

datatype exn =
    Raised string
  | SlackApiError string string
  | ValueError string
  | Exception string

datatype event =
    StepIs string
  | OpenRead string
  | NewTranscriber "string option"
  | AudioFromFile string
  | AudioFromWav string
  | AudioExport string nat
  | Recognize string
  | RemoveFile string
  | Print string
  | NewMinutesGenerator
  | ChatCompletion string
  | NewGoogleDocsClient
  | DriveListFolders string
  | DriveCreateFolder string
  | DocsCreate string
  | DriveGetParents string
  | DriveUpdateParents string string string
  | DocsInsertText string nat string
  | WebhookPost string string
  | ChatPostMessage string string

record effects =
  events :: "event list"

type_synonym ('s, 'a) act = "'s \<Rightarrow> (exn + 'a) \<times> 's"

definition ret :: "'a \<Rightarrow> ('s, 'a) act" where
  "ret x = (\<lambda>s. (Inr x, s))"

definition raise :: "exn \<Rightarrow> ('s, 'a) act" where
  "raise e = (\<lambda>s. (Inl e, s))"

definition catch :: "('s, 'a) act \<Rightarrow> (exn \<Rightarrow> ('s, 'a) act) \<Rightarrow> ('s, 'a) act" where
  "catch m h = (\<lambda>s. case m s of (Inl e, s') \<Rightarrow> h e s' | (Inr x, s') \<Rightarrow> (Inr x, s'))"

definition bind :: "('s, 'a) act \<Rightarrow> ('a \<Rightarrow> ('s, 'b) act) \<Rightarrow> ('s, 'b) act" where
  "bind m f = (\<lambda>s. case m s of (Inl e, s') \<Rightarrow> (Inl e, s') | (Inr x, s') \<Rightarrow> f x s')"

definition emit :: "event \<Rightarrow> ('z effects_scheme, unit) act" where
  "emit ev = (\<lambda>s. (Inr (), s\<lparr>events := events s @ [ev]\<rparr>))"

definition call :: "event \<Rightarrow> exn + 'a \<Rightarrow> ('z effects_scheme, 'a) act" where
  "call ev outcome = (\<lambda>s. (outcome, s\<lparr>events := events s @ [ev]\<rparr>))"

text \<open>
  The string literals of the source that are not ASCII are parameters of the
  model, one field for each.
\<close>

record literals =
  lit_not_configured :: string
  lit_slack_api_error :: string
  lit_saved_header :: string
  lit_file_name :: string
  lit_folder :: string
  lit_slack_sent :: string
  lit_chunk :: string
  lit_chunk_error :: string
  lit_no_api_key :: string
  lit_prompt_head :: string
  lit_prompt_tail :: string
  lit_transcribing :: string
  lit_text_loaded :: string
  lit_done_head :: string
  lit_done_tail :: string

text \<open>
  The world: the environment variables, the clock, and the outcome of every
  outside call, as a function of the call's arguments. An audio clip is a list
  with one element for each millisecond, so that \<open>len(audio)\<close> is its length and
  \<open>audio[a:b]\<close> a slice of the list.
\<close>

record 'a world =
  lits :: literals
  getenv :: "string \<Rightarrow> string option"
  today :: string
  format_exc :: "exn \<Rightarrow> string"
  open_read :: "string \<Rightarrow> exn + string"
  speech_client :: "exn + unit"
  from_file :: "string \<Rightarrow> exn + 'a list"
  from_wav :: "string \<Rightarrow> exn + 'a list"
  export :: "string \<Rightarrow> exn + unit"
  recognize :: "string \<Rightarrow> exn + string list"
  openai_client :: "exn + unit"
  chat_completion :: "string \<Rightarrow> exn + string"
  docs_authenticate :: "exn + unit"
  drive_list :: "string \<Rightarrow> exn + string list"
  drive_create_folder :: "string \<Rightarrow> exn + string"
  docs_create :: "string \<Rightarrow> exn + string"
  drive_get_parents :: "string \<Rightarrow> exn + string list"
  drive_update :: "string \<Rightarrow> exn + unit"
  docs_batch_update :: "string \<Rightarrow> exn + unit"
  webhook_post :: "string \<Rightarrow> string \<Rightarrow> exn + unit"
  chat_post_message :: "string \<Rightarrow> string \<Rightarrow> exn + unit"

text \<open>
  \<open>str(e)\<close>. \<open>Raised m\<close> is an exception of an outside call whose text is \<open>m\<close>;
  \<open>SlackApiError m code\<close> is the Slack library's error with text \<open>m\<close> and
  \<open>e.response['error'] = code\<close>; \<open>ValueError\<close> and \<open>Exception\<close> are the ones the
  repository raises itself.
\<close>

fun str_exn :: "exn \<Rightarrow> string" where
  "str_exn (Raised m) = m"
| "str_exn (SlackApiError m code) = m"
| "str_exn (ValueError m) = m"
| "str_exn (Exception m) = m"


section \<open>google_docs_client.py\<close>

text \<open>
  \<open>update_document_content\<close>: the projection from Markdown to plain text is three
  chained \<open>replace\<close> calls, in the order of the source; the result is inserted at
  index 1 by one \<open>batchUpdate\<close>.
\<close>

definition text_content :: "string \<Rightarrow> string" where
  "text_content content =
     py_replace ''### '' [] (py_replace ''## '' [] (py_replace ''# '' [] content))"

definition update_document_content ::
  "'a world \<Rightarrow> string \<Rightarrow> string \<Rightarrow> ('z effects_scheme, unit) act" where
  "update_document_content w document_id content =
     call (DocsInsertText document_id 1 (text_content content)) (docs_batch_update w document_id)"

definition get_document_url :: "string \<Rightarrow> ('z effects_scheme, string) act" where
  "get_document_url document_id = ret (''https://docs.google.com/document/d/'' @ document_id)"

definition get_or_create_folder :: "'a world \<Rightarrow> string \<Rightarrow> ('z effects_scheme, string) act" where
  "get_or_create_folder w folder_name =
     bind (call (DriveListFolders folder_name) (drive_list w folder_name)) (\<lambda>items.
       case items of
         item # _ \<Rightarrow> ret item
       | [] \<Rightarrow> call (DriveCreateFolder folder_name) (drive_create_folder w folder_name))"

definition create_document ::
  "'a world \<Rightarrow> string \<Rightarrow> string \<Rightarrow> string option \<Rightarrow> ('z effects_scheme, string) act" where
  "create_document w title content folder_id =
     bind (call (DocsCreate title) (docs_create w title)) (\<lambda>document_id.
     bind (if truthy folder_id
           then bind (call (DriveGetParents document_id) (drive_get_parents w document_id)) (\<lambda>parents.
                  call (DriveUpdateParents document_id (the folder_id) (py_join '','' parents))
                       (drive_update w document_id))
           else ret ()) (\<lambda>_.
     bind (update_document_content w document_id content) (\<lambda>_.
     ret document_id)))"

definition GoogleDocsClient :: "'a world \<Rightarrow> ('z effects_scheme, unit) act" where
  "GoogleDocsClient w = call NewGoogleDocsClient (docs_authenticate w)"


section \<open>transcriber.py\<close>

definition Transcriber :: "'a world \<Rightarrow> string option \<Rightarrow> ('z effects_scheme, unit) act" where
  "Transcriber w project_id = call (NewTranscriber project_id) (speech_client w)"

definition convert_audio_to_wav :: "'a world \<Rightarrow> string \<Rightarrow> ('z effects_scheme, string) act" where
  "convert_audio_to_wav w audio_path =
     bind (call (AudioFromFile audio_path) (from_file w audio_path)) (\<lambda>audio.
     let wav_path = hd (rsplit1 CHR ''.'' audio_path) @ ''_converted.wav'' in
     bind (call (AudioExport wav_path (length audio)) (export w wav_path)) (\<lambda>_.
     ret wav_path))"

text \<open>
  The first two lines of \<open>transcribe_file\<close> and of \<open>transcribe_long_audio\<close>: a path
  that does not end in \<open>.wav\<close> is converted first.
\<close>

definition as_wav :: "'a world \<Rightarrow> string \<Rightarrow> ('z effects_scheme, string) act" where
  "as_wav w audio_path =
     (if \<not> endswith audio_path ''.wav'' then convert_audio_to_wav w audio_path
      else ret audio_path)"

text \<open>
  \<open>transcribe_file\<close>. The outcome of \<open>recognize\<close> stands for reading the file and
  the remote call together, and gives \<open>alternatives[0].transcript\<close> of each result.
\<close>

definition results_text :: "string list \<Rightarrow> string" where
  "results_text results =
     py_strip (foldl (\<lambda>t result. t @ result @ ''\<newline>'') [] results)"

definition transcribe_file :: "'a world \<Rightarrow> string \<Rightarrow> ('z effects_scheme, string) act" where
  "transcribe_file w audio_path =
     bind (as_wav w audio_path) (\<lambda>audio_path.
     bind (call (Recognize audio_path) (recognize w audio_path)) (\<lambda>results.
     ret (results_text results)))"

definition chunk_duration_ms :: nat where
  "chunk_duration_ms = 50000"

text \<open>
  \<open>range(start, stop, step)\<close> for a positive step (the only call passes the
  constant 50000; Python refuses a zero step), and \<open>xs[a:b]\<close> for \<open>0 \<le> a\<close>, \<open>0 \<le> b\<close>.
\<close>

function py_range :: "nat \<Rightarrow> nat \<Rightarrow> nat \<Rightarrow> nat list" where
  "py_range start stop step =
     (if 0 < step \<and> start < stop then start # py_range (start + step) stop step else [])"
  by pat_completeness auto
termination
  by (relation "measure (\<lambda>(start, stop, step). stop - start)") auto

declare py_range.simps [simp del]

definition py_slice :: "'a list \<Rightarrow> nat \<Rightarrow> nat \<Rightarrow> 'a list" where
  "py_slice xs a b = drop a (take b xs)"

definition split_chunks :: "'a list \<Rightarrow> 'a list list" where
  "split_chunks audio =
     map (\<lambda>i. py_slice audio i (i + chunk_duration_ms))
         (py_range 0 (length audio) chunk_duration_ms)"

definition enumerate_py :: "'a list \<Rightarrow> (nat \<times> 'a) list" where
  "enumerate_py xs = zip [0..<length xs] xs"

definition chunk_path :: "string \<Rightarrow> nat \<Rightarrow> string" where
  "chunk_path audio_path i = audio_path @ ''_chunk_'' @ py_str_nat i @ ''.wav''"

text \<open>
  The second loop of \<open>transcribe_long_audio\<close>. The export is outside the \<open>try\<close>, so
  its failure ends the call; a failure of \<open>transcribe_file\<close> is caught and
  printed, and leaves the transcript as it was; the \<open>finally\<close> removes the chunk's
  file in both cases.
\<close>

fun transcribe_chunks ::
  "'a world \<Rightarrow> string \<Rightarrow> (nat \<times> 'a list) list \<Rightarrow> string \<Rightarrow> ('z effects_scheme, string) act" where
  "transcribe_chunks w audio_path [] transcript = ret transcript"
| "transcribe_chunks w audio_path ((i, chunk) # rest) transcript =
     bind (call (AudioExport (chunk_path audio_path i) (length chunk))
                (export w (chunk_path audio_path i))) (\<lambda>_.
     bind (catch
             (bind (transcribe_file w (chunk_path audio_path i)) (\<lambda>chunk_transcript.
              ret (transcript @ chunk_transcript @ ''\<newline>'')))
             (\<lambda>e. bind (emit (Print (lit_chunk (lits w) @ py_str_nat i
                                      @ lit_chunk_error (lits w) @ str_exn e))) (\<lambda>_.
                  ret transcript))) (\<lambda>transcript'.
     bind (emit (RemoveFile (chunk_path audio_path i))) (\<lambda>_.
     transcribe_chunks w audio_path rest transcript')))"

definition transcribe_long_audio :: "'a world \<Rightarrow> string \<Rightarrow> ('z effects_scheme, string) act" where
  "transcribe_long_audio w audio_path =
     bind (as_wav w audio_path) (\<lambda>audio_path.
     bind (call (AudioFromWav audio_path) (from_wav w audio_path)) (\<lambda>audio.
     bind (transcribe_chunks w audio_path (enumerate_py (split_chunks audio)) []) (\<lambda>transcript.
     ret (py_strip transcript))))"


section \<open>minutes_generator.py\<close>

definition MinutesGenerator :: "'a world \<Rightarrow> string option \<Rightarrow> ('z effects_scheme, unit) act" where
  "MinutesGenerator w api_key =
     (let api_key = (case api_key of None \<Rightarrow> getenv w ''OPENAI_API_KEY'' | Some k \<Rightarrow> Some k)
      in if \<not> truthy api_key then raise (ValueError (lit_no_api_key (lits w)))
         else call NewMinutesGenerator (openai_client w))"

definition create_prompt :: "'a world \<Rightarrow> string \<Rightarrow> string" where
  "create_prompt w t = lit_prompt_head (lits w) @ t @ lit_prompt_tail (lits w)"

definition generate_minutes :: "'a world \<Rightarrow> string \<Rightarrow> ('z effects_scheme, string) act" where
  "generate_minutes w t =
     (let prompt = create_prompt w t
      in call (ChatCompletion prompt) (chat_completion w prompt))"


section \<open>slack_client.py\<close>

record slack_client =
  webhook_url :: "string option"
  bot_token :: "string option"
  client :: "string option"

text \<open>The constructor; \<open>client\<close> holds the token the \<open>WebClient\<close> was built with.\<close>

definition SlackClient :: "'a world \<Rightarrow> string option \<Rightarrow> string option \<Rightarrow> slack_client" where
  "SlackClient w webhook_arg token_arg =
     (let url = (case webhook_arg of None \<Rightarrow> getenv w ''SLACK_WEBHOOK_URL'' | Some u \<Rightarrow> Some u);
          token = (case token_arg of None \<Rightarrow> getenv w ''SLACK_BOT_TOKEN'' | Some t \<Rightarrow> Some t)
      in \<lparr>webhook_url = url, bot_token = token,
          client = (if truthy token then token else None)\<rparr>)"

definition send_message ::
  "'a world \<Rightarrow> slack_client \<Rightarrow> string \<Rightarrow> string option \<Rightarrow> ('z effects_scheme, unit) act" where
  "send_message w self message channel =
     (if truthy (webhook_url self) then
        call (WebhookPost (the (webhook_url self)) message)
             (webhook_post w (the (webhook_url self)) message)
      else if client self \<noteq> None \<and> truthy channel then
        catch (call (ChatPostMessage (the channel) message)
                    (chat_post_message w (the channel) message))
              (\<lambda>e. case e of
                     SlackApiError m code \<Rightarrow> raise (Exception (lit_slack_api_error (lits w) @ code))
                   | _ \<Rightarrow> raise e)
      else raise (ValueError (lit_not_configured (lits w))))"

definition send_document_notification ::
  "'a world \<Rightarrow> slack_client \<Rightarrow> string \<Rightarrow> string \<Rightarrow> string option \<Rightarrow> ('z effects_scheme, unit) act" where
  "send_document_notification w self title url folder_name =
     (let message = lit_saved_header (lits w) @ ''\<newline>\<newline>''
                    @ lit_file_name (lits w) @ '': '' @ title @ ''\<newline>''
                    @ ''URL: '' @ url @ ''\<newline>''
                    @ (if truthy folder_name then lit_folder (lits w) @ '': '' @ the folder_name
                       else []);
          channel = getenv w ''SLACK_CHANNEL''
      in send_message w self message channel)"


section \<open>api/index.py\<close>

definition ALLOWED_EXTENSIONS :: "string set" where
  "ALLOWED_EXTENSIONS =
     {''mp4'', ''m4a'', ''wav'', ''mp3'', ''flac'', ''ogg'', ''webm'', ''txt'', ''md''}"

definition allowed_file :: "string \<Rightarrow> bool" where
  "allowed_file filename =
     (CHR ''.'' \<in> set filename \<and> py_lower (rsplit1 CHR ''.'' filename ! 1) \<in> ALLOWED_EXTENSIONS)"

definition is_text_file :: "string \<Rightarrow> bool" where
  "is_text_file filename = (endswith filename ''.txt'' \<or> endswith filename ''.md'')"

text \<open>\<open>os.path.basename\<close>: the text after the last slash.\<close>

definition basename :: "string \<Rightarrow> string" where
  "basename p = rev (takeWhile (\<lambda>c. c \<noteq> CHR ''/'') (rev p))"

text \<open>
  The status record of a run, \<open>result\<close> in the source, together with the event
  log. The key \<open>traceback\<close> exists only after a failure.
\<close>

record run = effects +
  status :: string
  step :: string
  transcript :: "string option"
  minutes :: "string option"
  document_url :: "string option"
  document_title :: "string option"
  slack_message :: "string option"
  error :: "string option"
  traceback :: "string option"

definition new_result :: run where
  "new_result =
     \<lparr>events = [StepIs ''transcription''],
      status = ''processing'', step = ''transcription'', transcript = None, minutes = None,
      document_url = None, document_title = None, slack_message = None, error = None,
      traceback = None\<rparr>"

definition set_step :: "string \<Rightarrow> (run, unit) act" where
  "set_step label = (\<lambda>r. (Inr (), r\<lparr>step := label, events := events r @ [StepIs label]\<rparr>))"

definition modify :: "('s \<Rightarrow> 's) \<Rightarrow> ('s, unit) act" where
  "modify f = (\<lambda>s. (Inr (), f s))"

text \<open>The length of a clip in seconds, \<open>len(audio) / 1000.0\<close>.\<close>

definition duration_seconds :: "'a list \<Rightarrow> real" where
  "duration_seconds audio = real (length audio) / 1000"

definition step1_transcription :: "'a world \<Rightarrow> string \<Rightarrow> (run, string) act" where
  "step1_transcription w file_path =
     (let filename = basename file_path;
          is_text = is_text_file filename
      in if is_text then
           bind (set_step ''transcription'') (\<lambda>_.
           bind (call (OpenRead file_path) (open_read w file_path)) (\<lambda>t.
           bind (modify (\<lambda>r. r\<lparr>transcript := Some t\<rparr>)) (\<lambda>_.
           ret t)))
         else
           bind (set_step ''transcription'') (\<lambda>_.
           bind (Transcriber w (getenv w ''GOOGLE_CLOUD_PROJECT_ID'')) (\<lambda>_.
           bind (call (AudioFromFile file_path) (from_file w file_path)) (\<lambda>audio.
           bind (if duration_seconds audio \<ge> 60 then transcribe_long_audio w file_path
                 else transcribe_file w file_path) (\<lambda>t.
           bind (modify (\<lambda>r. r\<lparr>transcript := Some t\<rparr>)) (\<lambda>_.
           ret t))))))"

definition step2_minutes :: "'a world \<Rightarrow> string \<Rightarrow> (run, string) act" where
  "step2_minutes w t =
     bind (set_step ''generating_minutes'') (\<lambda>_.
     bind (MinutesGenerator w None) (\<lambda>_.
     bind (generate_minutes w t) (\<lambda>m.
     bind (modify (\<lambda>r. r\<lparr>minutes := Some m\<rparr>)) (\<lambda>_.
     ret m))))"

definition step3_docs :: "'a world \<Rightarrow> string \<Rightarrow> (run, string \<times> string \<times> string) act" where
  "step3_docs w m =
     bind (set_step ''saving_to_docs'') (\<lambda>_.
     let title = ''minutes_'' @ today w in
     bind (GoogleDocsClient w) (\<lambda>_.
     let folder_name = ''minutes_test'' in
     bind (get_or_create_folder w folder_name) (\<lambda>folder_id.
     bind (create_document w title m (Some folder_id)) (\<lambda>document_id.
     bind (get_document_url document_id) (\<lambda>url.
     bind (modify (\<lambda>r. r\<lparr>document_url := Some url, document_title := Some title\<rparr>)) (\<lambda>_.
     ret (title, url, folder_name)))))))"

definition step4_slack :: "'a world \<Rightarrow> string \<times> string \<times> string \<Rightarrow> (run, unit) act" where
  "step4_slack w doc =
     (case doc of (title, url, folder_name) \<Rightarrow>
        bind (set_step ''sending_slack'') (\<lambda>_.
        bind (send_document_notification w (SlackClient w None None) title url (Some folder_name)) (\<lambda>_.
        bind (modify (\<lambda>r. r\<lparr>slack_message := Some (lit_slack_sent (lits w) @ '': '' @ title)\<rparr>)) (\<lambda>_.
        bind (modify (\<lambda>r. r\<lparr>status := ''completed''\<rparr>)) (\<lambda>_.
        set_step ''completed'')))))"

text \<open>
  \<open>process_audio_file\<close>: the four steps in a \<open>try\<close>, and the \<open>except\<close> that turns any
  exception into the status \<open>error\<close>. The value is the record that
  \<open>processing_results\<close> holds for the session when the function returns.
\<close>

definition process_audio_file :: "'a world \<Rightarrow> string \<Rightarrow> run" where
  "process_audio_file w file_path =
     snd (catch
            (bind (step1_transcription w file_path) (\<lambda>t.
             bind (step2_minutes w t) (\<lambda>m.
             bind (step3_docs w m) (\<lambda>doc.
             step4_slack w doc))))
            (\<lambda>e. modify (\<lambda>r. r\<lparr>status := ''error'', error := Some (str_exn e),
                                 traceback := Some (format_exc w e)\<rparr>))
            new_result)"

text \<open>The labels that the \<open>step\<close> key has held, oldest first.\<close>

fun step_history :: "event list \<Rightarrow> string list" where
  "step_history [] = []"
| "step_history (StepIs label # evs) = label # step_history evs"
| "step_history (_ # evs) = step_history evs"


section \<open>main.py\<close>

text \<open>
  The first step of \<open>main\<close>, from the test on the file's ending to the end of the
  transcription, with what it prints.
\<close>

definition main_step1 :: "'a world \<Rightarrow> string \<Rightarrow> ('z effects_scheme, string) act" where
  "main_step1 w input_file =
     (let is_text_file = (endswith input_file ''.txt'' \<or> endswith input_file ''.md'') in
      bind (emit (Print (''\<newline>'' @ replicate 50 CHR ''=''))) (\<lambda>_.
      bind (emit (Print (lit_transcribing (lits w)))) (\<lambda>_.
      bind (emit (Print (replicate 50 CHR ''=''))) (\<lambda>_.
      if is_text_file then
        bind (call (OpenRead input_file) (open_read w input_file)) (\<lambda>t.
        bind (emit (Print (lit_text_loaded (lits w)))) (\<lambda>_.
        ret t))
      else
        bind (Transcriber w (getenv w ''GOOGLE_CLOUD_PROJECT_ID'')) (\<lambda>_.
        bind (call (AudioFromFile input_file) (from_file w input_file)) (\<lambda>audio.
        bind (if duration_seconds audio \<ge> 60 then transcribe_long_audio w input_file
              else transcribe_file w input_file) (\<lambda>t.
        bind (emit (Print (lit_done_head (lits w) @ py_str_nat (length t)
                           @ lit_done_tail (lits w)))) (\<lambda>_.
        ret t))))))))"


section \<open>Vocabulary of the properties\<close>

text \<open>Where an event comes from.\<close>

datatype origin = Status | TextFile | Speech | Console | Generator | Docs | Slack

fun origin_of :: "event \<Rightarrow> origin" where
  "origin_of (StepIs _) = Status"
| "origin_of (OpenRead _) = TextFile"
| "origin_of (NewTranscriber _) = Speech"
| "origin_of (AudioFromFile _) = Speech"
| "origin_of (AudioFromWav _) = Speech"
| "origin_of (AudioExport _ _) = Speech"
| "origin_of (Recognize _) = Speech"
| "origin_of (RemoveFile _) = Speech"
| "origin_of (Print _) = Console"
| "origin_of NewMinutesGenerator = Generator"
| "origin_of (ChatCompletion _) = Generator"
| "origin_of NewGoogleDocsClient = Docs"
| "origin_of (DriveListFolders _) = Docs"
| "origin_of (DriveCreateFolder _) = Docs"
| "origin_of (DocsCreate _) = Docs"
| "origin_of (DriveGetParents _) = Docs"
| "origin_of (DriveUpdateParents _ _ _) = Docs"
| "origin_of (DocsInsertText _ _ _) = Docs"
| "origin_of (WebhookPost _ _) = Slack"
| "origin_of (ChatPostMessage _ _) = Slack"

text \<open>
  \<open>logs Q m\<close>: all that \<open>m\<close> does to the state is to append events that satisfy
  \<open>Q\<close>. \<open>appends Q m\<close>: the events after \<open>m\<close> are the ones before, followed by events
  that satisfy \<open>Q\<close>. \<open>keeps f m\<close>: \<open>m\<close> leaves the value of \<open>f\<close> as it was.
\<close>

definition logs :: "(event \<Rightarrow> bool) \<Rightarrow> ('z effects_scheme, 'a) act \<Rightarrow> bool" where
  "logs Q m \<longleftrightarrow> (\<forall>s. \<exists>evs. snd (m s) = s\<lparr>events := events s @ evs\<rparr> \<and> list_all Q evs)"

definition appends :: "(event \<Rightarrow> bool) \<Rightarrow> ('z effects_scheme, 'a) act \<Rightarrow> bool" where
  "appends Q m \<longleftrightarrow> (\<forall>s. \<exists>evs. events (snd (m s)) = events s @ evs \<and> list_all Q evs)"

definition keeps :: "('s \<Rightarrow> 'b) \<Rightarrow> ('s, 'a) act \<Rightarrow> bool" where
  "keeps f m \<longleftrightarrow> (\<forall>s. f (snd (m s)) = f s)"

text \<open>What one chunk adds to the transcript, given the outcome of its recognition.\<close>

definition fragment :: "exn + string list \<Rightarrow> string" where
  "fragment outcome = (case outcome of Inl e \<Rightarrow> [] | Inr rs \<Rightarrow> results_text rs @ ''\<newline>'')"

text \<open>
  A world for concrete runs: a clip of two minutes, no environment variable
  set, every outside call succeeding, except the recognition of the second
  chunk of \<open>a.wav\<close>.
\<close>

definition demo_literals :: literals where
  "demo_literals =
     \<lparr>lit_not_configured = ''not configured'', lit_slack_api_error = ''Slack API error: '',
      lit_saved_header = ''saved'', lit_file_name = ''file'', lit_folder = ''folder'',
      lit_slack_sent = ''sent'', lit_chunk = ''chunk '', lit_chunk_error = '' failed: '',
      lit_no_api_key = ''no API key'', lit_prompt_head = ''<'', lit_prompt_tail = ''>'',
      lit_transcribing = ''transcribing'', lit_text_loaded = ''text loaded'',
      lit_done_head = ''done ('', lit_done_tail = '')''\<rparr>"

definition demo_world :: "nat world" where
  "demo_world =
     \<lparr>lits = demo_literals,
      getenv = (\<lambda>_. None),
      today = ''2024-01-31'',
      format_exc = str_exn,
      open_read = (\<lambda>_. Inr ''notes''),
      speech_client = Inr (),
      from_file = (\<lambda>_. Inr (replicate 120000 0)),
      from_wav = (\<lambda>_. Inr (replicate 120000 0)),
      export = (\<lambda>_. Inr ()),
      recognize = (\<lambda>path. if path = ''a.wav_chunk_1.wav'' then Inl (Raised ''quota'')
                           else Inr [path]),
      openai_client = Inr (),
      chat_completion = (\<lambda>_. Inr ''# Minutes''),
      docs_authenticate = Inr (),
      drive_list = (\<lambda>_. Inr []),
      drive_create_folder = (\<lambda>_. Inr ''F1''),
      docs_create = (\<lambda>_. Inr ''D1''),
      drive_get_parents = (\<lambda>_. Inr [''root'']),
      drive_update = (\<lambda>_. Inr ()),
      docs_batch_update = (\<lambda>_. Inr ()),
      webhook_post = (\<lambda>_ _. Inr ()),
      chat_post_message = (\<lambda>_ _. Inr ())\<rparr>"


text \<open>The same world with an API key set and a text generator that fails.\<close>

definition failing_generator_world :: "nat world" where
  "failing_generator_world =
     demo_world\<lparr>getenv := (\<lambda>k. if k = ''OPENAI_API_KEY'' then Some ''sk-demo'' else None),
                chat_completion := (\<lambda>_. Inl (Raised ''rate limit''))\<rparr>"


section \<open>Properties\<close>

text \<open>
  C1. The claim: for the content \<open># Title\<newline>## Sub\<close> the text that
  \<open>update_document_content\<close> inserts is \<open>Title\<newline>Sub\<close>. The code inserts
  \<open>Title\<newline>#Sub\<close>: the first \<open>replace\<close> removes every \<open># \<close>, also the one that
  ends \<open>## \<close>, so the second line keeps one \<open>#\<close> and loses its blank, and the two
  later \<open>replace\<close> calls find nothing left to remove.
\<close>

theorem text_content_title_sub:
  "text_content ''# Title\<newline>## Sub'' = ''Title\<newline>#Sub'' \<and>
   text_content ''# Title\<newline>## Sub'' \<noteq> ''Title\<newline>Sub'' \<and>
   update_document_content w d ''# Title\<newline>## Sub'' \<lparr>events = []\<rparr>
     = (docs_batch_update w d, \<lparr>events = [DocsInsertText d 1 ''Title\<newline>#Sub'']\<rparr>)"
  by (simp add: text_content_def update_document_content_def call_def)

text \<open>
  C8. \<open>get_document_url\<close> makes no outside call (it leaves the state, and so the
  event log, as it found it), never raises, and returns the fixed prefix
  followed by the id, whatever the state it runs in.
\<close>

theorem get_document_url_pure:
  "get_document_url document_id s = (Inr (''https://docs.google.com/document/d/'' @ document_id), s)"
  by (simp add: get_document_url_def ret_def)


subsection \<open>Chunking\<close>

lemma length_py_range:
  "0 < c \<Longrightarrow> length (py_range start stop c) = (stop - start + c - 1) div c"
proof (induction start stop c rule: py_range.induct)
  case (1 start stop c)
  show ?case
  proof (cases "start < stop")
    case True
    have ih: "length (py_range (start + c) stop c) = (stop - (start + c) + c - 1) div c"
      using 1 True by simp
    show ?thesis
    proof (cases "start + c \<le> stop")
      case le: True
      define m where "m = stop - (start + c) + c - 1"
      have e: "stop - start + c - 1 = m + c"
        using le 1(2) by (simp add: m_def)
      have "(m + c) div c = Suc (m div c)"
        using 1(2) by simp
      then have "(stop - start + c - 1) div c = Suc (m div c)"
        by (simp only: e)
      then show ?thesis using True 1(2) ih by (subst py_range.simps) (simp add: m_def)
    next
      case gt: False
      then have a: "stop - (start + c) = 0" by simp
      have "stop - start + c - 1 < 2 * c" using gt True by simp
      moreover have "c \<le> stop - start + c - 1" using True by simp
      ultimately have "(stop - start + c - 1) div c = 1"
        using 1(2) by (metis Suc_1 div_nat_eqI mult.commute mult_1 mult_Suc_right nat_mult_1_right)
      then show ?thesis using True 1(2) ih a by (subst py_range.simps) simp
    qed
  next
    case False
    then show ?thesis using 1(2) by (subst py_range.simps) simp
  qed
qed

lemma nth_py_range:
  "k < length (py_range start stop c) \<Longrightarrow> py_range start stop c ! k = start + k * c"
proof (induction start stop c arbitrary: k rule: py_range.induct)
  case (1 start stop c)
  show ?case
  proof (cases "0 < c \<and> start < stop")
    case True
    then have eq: "py_range start stop c = start # py_range (start + c) stop c"
      by (subst py_range.simps) simp
    show ?thesis
    proof (cases k)
      case 0
      then show ?thesis using eq by simp
    next
      case (Suc j)
      then have "j < length (py_range (start + c) stop c)" using 1(2) eq by simp
      then have "py_range (start + c) stop c ! j = start + c + j * c"
        using 1(1) True by simp
      then show ?thesis using eq Suc by simp
    qed
  next
    case False
    then have "py_range start stop c = []" by (subst py_range.simps) simp
    then show ?thesis using 1(2) by simp
  qed
qed

lemma concat_slices:
  "0 < c \<Longrightarrow> stop = length xs \<Longrightarrow>
   concat (map (\<lambda>i. py_slice xs i (i + c)) (py_range start stop c)) = drop start xs"
proof (induction start stop c rule: py_range.induct)
  case (1 start stop c)
  show ?case
  proof (cases "start < stop")
    case True
    then have eq: "py_range start stop c = start # py_range (start + c) stop c"
      using 1(2) by (subst py_range.simps) simp
    have ih: "concat (map (\<lambda>i. py_slice xs i (i + c)) (py_range (start + c) stop c))
                = drop (start + c) xs"
      using 1 True by simp
    have "drop start xs = drop start (take (start + c) xs @ drop (start + c) xs)"
      by simp
    also have "\<dots> = drop start (take (start + c) xs) @ drop (start + c) xs"
      using True 1(3) by (simp del: append_take_drop_id)
    finally show ?thesis using eq ih by (simp add: py_slice_def)
  next
    case False
    then have "py_range start stop c = []" by (subst py_range.simps) simp
    then show ?thesis using False 1(3) by simp
  qed
qed

lemma ceil_div_nat:
  assumes "0 < c"
  shows "\<lceil>real d / real c\<rceil> = int ((d + c - 1) div c)"
proof (rule ceiling_unique)
  define q where "q = (d + c - 1) div c"
  have a: "q * c \<le> d + c - 1" by (simp add: q_def)
  have b: "d + c - 1 < c + q * c"
    unfolding q_def using assms by (rule dividend_less_div_times)
  have le: "d \<le> q * c" using b assms by linarith
  have lt: "q * c < d + c" using a assms by linarith
  have "real (q * c) < real (d + c)" using lt by (simp only: of_nat_less_iff)
  then have "(real q - 1) * real c < real d" by (simp add: algebra_simps)
  then show "of_int (int ((d + c - 1) div c)) - 1 < real d / real c"
    using assms by (simp add: pos_less_divide_eq q_def)
  have "real d \<le> real (q * c)" using le by (simp only: of_nat_le_iff)
  then show "real d / real c \<le> of_int (int ((d + c - 1) div c))"
    using assms by (simp add: pos_divide_le_eq q_def)
qed

lemma py_range_bound:
  assumes "0 < c" "k < length (py_range 0 stop c)"
  shows "k * c < stop"
proof -
  have "Suc k \<le> (stop + c - 1) div c"
    using assms by (simp add: length_py_range)
  then have "Suc k * c \<le> stop + c - 1"
    using assms(1) by (simp only: less_eq_div_iff_mult_less_eq)
  then show ?thesis using assms(1) by simp
qed

lemma py_range_full:
  assumes "0 < c" "Suc k < length (py_range 0 stop c)"
  shows "k * c + c \<le> stop"
proof -
  have "Suc k * c < stop"
    using assms by (rule py_range_bound)
  then show ?thesis by simp
qed

lemma length_py_slice: "length (py_slice xs a b) = min b (length xs) - a"
  by (simp add: py_slice_def min.commute)

lemma nth_split_chunks:
  assumes "k < length (split_chunks audio)"
  shows "split_chunks audio ! k =
           py_slice audio (k * chunk_duration_ms) (k * chunk_duration_ms + chunk_duration_ms)"
  using assms by (simp add: split_chunks_def nth_py_range)

lemma concat_split_chunks: "concat (split_chunks audio) = audio"
  using concat_slices [of chunk_duration_ms "length audio" audio 0]
  by (simp add: split_chunks_def chunk_duration_ms_def)

text \<open>
  C3. For a clip of \<open>D\<close> milliseconds and the chunk size \<open>C\<close> of 50000 ms, the first loop
  of \<open>transcribe_long_audio\<close> makes \<open>\<lceil>D / C\<rceil>\<close> chunks; put end to end they are the clip
  again, so they cover it in order with no gap and no overlap, and their
  durations add up to \<open>D\<close>; chunk \<open>k\<close> is the slice from \<open>k * C\<close> to \<open>k * C + C\<close>, is
  not empty and is at most \<open>C\<close> long; every chunk but the last is exactly \<open>C\<close>
  long.
\<close>

theorem split_chunks_cover:
  "int (length (split_chunks audio)) = \<lceil>real (length audio) / real chunk_duration_ms\<rceil>
   \<and> concat (split_chunks audio) = audio
   \<and> sum_list (map length (split_chunks audio)) = length audio
   \<and> (\<forall>k < length (split_chunks audio).
         split_chunks audio ! k =
           py_slice audio (k * chunk_duration_ms) (k * chunk_duration_ms + chunk_duration_ms)
       \<and> 0 < length (split_chunks audio ! k)
       \<and> length (split_chunks audio ! k) \<le> chunk_duration_ms)
   \<and> (\<forall>k. Suc k < length (split_chunks audio) \<longrightarrow>
         length (split_chunks audio ! k) = chunk_duration_ms)"
proof -
  have pos: "0 < chunk_duration_ms" by (simp add: chunk_duration_ms_def)
  have len: "length (split_chunks audio) = length (py_range 0 (length audio) chunk_duration_ms)"
    by (simp add: split_chunks_def)
  have count: "int (length (split_chunks audio)) = \<lceil>real (length audio) / real chunk_duration_ms\<rceil>"
    using pos by (simp add: len length_py_range ceil_div_nat)
  have total: "sum_list (map length (split_chunks audio)) = length audio"
    using arg_cong [OF concat_split_chunks [of audio], of length] by (simp only: length_concat)
  have each: "split_chunks audio ! k =
           py_slice audio (k * chunk_duration_ms) (k * chunk_duration_ms + chunk_duration_ms)
       \<and> 0 < length (split_chunks audio ! k)
       \<and> length (split_chunks audio ! k) \<le> chunk_duration_ms"
    if k: "k < length (split_chunks audio)" for k
  proof -
    have "k * chunk_duration_ms < length audio"
      using pos k unfolding len by (rule py_range_bound)
    then show ?thesis
      using pos by (simp add: nth_split_chunks [OF k] length_py_slice)
  qed
  have full: "length (split_chunks audio ! k) = chunk_duration_ms"
    if k: "Suc k < length (split_chunks audio)" for k
  proof -
    have "k * chunk_duration_ms + chunk_duration_ms \<le> length audio"
      using pos k unfolding len by (rule py_range_full)
    moreover have "k < length (split_chunks audio)" using k by simp
    ultimately show ?thesis
      by (simp add: nth_split_chunks length_py_slice)
  qed
  show ?thesis
    using count concat_split_chunks total each full by blast
qed

theorem split_chunks_cover_witness:
  "length (split_chunks (replicate 120000 (0::nat))) = 3 \<and>
   length (split_chunks (replicate 120000 (0::nat)) ! 0) = 50000 \<and>
   length (split_chunks (replicate 120000 (0::nat)) ! 1) = 50000 \<and>
   split_chunks (replicate 120000 (0::nat)) ! 2 = replicate 20000 0"
proof -
  note t = split_chunks_cover [of "replicate 120000 (0::nat)"]
  have n: "length (split_chunks (replicate 120000 (0::nat))) = 3"
    using conjunct1 [OF t] by (simp add: chunk_duration_ms_def)
  have full: "length (split_chunks (replicate 120000 (0::nat)) ! k) = chunk_duration_ms"
    if "Suc k < length (split_chunks (replicate 120000 (0::nat)))" for k
    using t that by blast
  have each: "split_chunks (replicate 120000 (0::nat)) ! k =
      py_slice (replicate 120000 (0::nat)) (k * chunk_duration_ms) (k * chunk_duration_ms + chunk_duration_ms)"
    if "k < length (split_chunks (replicate 120000 (0::nat)))" for k
    using t that by blast
  have "length (split_chunks (replicate 120000 (0::nat)) ! 0) = 50000"
    using full [of 0] n by (simp add: chunk_duration_ms_def)
  moreover have "length (split_chunks (replicate 120000 (0::nat)) ! 1) = 50000"
    using full [of 1] n by (simp add: chunk_duration_ms_def)
  moreover have "split_chunks (replicate 120000 (0::nat)) ! 2 = replicate 20000 0"
    using each [of 2] n by (simp add: chunk_duration_ms_def py_slice_def)
  ultimately show ?thesis using n by simp
qed


subsection \<open>The transcription of the chunks\<close>

lemma endswith_chunk_path: "endswith (chunk_path p i) ''.wav''"
  unfolding endswith_def chunk_path_def by (intro suffix_appendI) simp

lemma transcribe_file_wav:
  assumes "endswith q ''.wav''"
  shows "transcribe_file w q s =
           (case recognize w q of Inl e \<Rightarrow> Inl e | Inr rs \<Rightarrow> Inr (results_text rs),
            s\<lparr>events := events s @ [Recognize q]\<rparr>)"
  using assms
  by (simp add: transcribe_file_def as_wav_def bind_def ret_def call_def split: sum.splits)

lemma transcribe_chunks_result:
  "\<forall>(i, c) \<in> set ics. export w (chunk_path p i) = Inr () \<Longrightarrow>
   fst (transcribe_chunks w p ics acc s)
     = Inr (acc @ concat (map (\<lambda>(i, c). fragment (recognize w (chunk_path p i))) ics))"
proof (induction ics arbitrary: acc s)
  case Nil
  then show ?case by (simp add: ret_def)
next
  case (Cons ic ics)
  obtain i c where ic: "ic = (i, c)" by (cases ic)
  have ex: "export w (chunk_path p i) = Inr ()" using Cons.prems ic by simp
  have rest: "\<forall>(i, c) \<in> set ics. export w (chunk_path p i) = Inr ()" using Cons.prems by simp
  show ?case
  proof (cases "recognize w (chunk_path p i)")
    case (Inl e)
    then show ?thesis
      using ex Cons.IH [OF rest]
      by (simp add: ic bind_def catch_def call_def emit_def ret_def fragment_def
                    transcribe_file_wav [OF endswith_chunk_path])
  next
    case (Inr rs)
    then show ?thesis
      using ex Cons.IH [OF rest]
      by (simp add: ic bind_def catch_def call_def emit_def ret_def fragment_def
                    transcribe_file_wav [OF endswith_chunk_path])
  qed
qed

lemma concat_lines: "ts \<noteq> [] \<Longrightarrow> concat (map (\<lambda>t. t @ sep) ts) = py_join sep ts @ sep"
  by (induction sep ts rule: py_join.induct) simp_all

lemma isspace_newline: "py_isspace CHR 0x0A"
  by (simp add: py_isspace_def)

lemma py_rstrip_snoc: "py_isspace c \<Longrightarrow> py_rstrip (y @ [c]) = py_rstrip y"
  by (simp add: py_rstrip_def)

lemma py_strip_snoc:
  assumes "py_isspace c"
  shows "py_strip (x @ [c]) = py_strip x"
proof (cases "\<forall>a \<in> set x. py_isspace a")
  case True
  then have l: "py_lstrip x = []" by (simp add: py_lstrip_def)
  have l2: "py_lstrip (x @ [c]) = []"
    using True assms by (simp add: py_lstrip_def)
  show ?thesis by (simp only: py_strip_def l l2)
next
  case False
  then obtain a where "a \<in> set x" "\<not> py_isspace a" by blast
  then have l2: "py_lstrip (x @ [c]) = py_lstrip x @ [c]"
    unfolding py_lstrip_def by (rule dropWhile_append1)
  show ?thesis by (simp only: py_strip_def l2 py_rstrip_snoc [OF assms])
qed

lemma strip_lines:
  "py_strip (concat (map (\<lambda>t. t @ ''\<newline>'') ts)) = py_strip (py_join ''\<newline>'' ts)"
proof (cases "ts = []")
  case True
  then show ?thesis by simp
next
  case False
  then show ?thesis
    using py_strip_snoc [OF isspace_newline, of "py_join ''\<newline>'' ts"]
    by (simp add: concat_lines)
qed

lemma map_enumerate:
  "map (\<lambda>(i, c). f i) (enumerate_py xs) = map f [0..<length xs]"
proof -
  have "map (\<lambda>(i, c). f i) (enumerate_py xs) = map f (map fst (enumerate_py xs))"
    by (simp add: case_prod_unfold comp_def)
  then show ?thesis by (simp add: enumerate_py_def)
qed

text \<open>
  C2. A run of \<open>transcribe_long_audio\<close> whose chunk files are all written and in
  which the transcription of exactly one chunk raises, the chunks before it
  giving the results \<open>before\<close> and the chunks after it the results \<open>after\<close>: the
  call does not raise, and returns the transcripts of the other chunks, in
  chunk order, joined by newlines and stripped. The chunk that failed adds
  nothing, no newline either.
\<close>

theorem transcribe_long_audio_one_failure:
  fixes s :: "'z effects_scheme"
  assumes "as_wav w audio_path s = (Inr p, s1)"
      and "from_wav w p = Inr audio"
      and "\<forall>i < length (split_chunks audio). export w (chunk_path p i) = Inr ()"
      and "map (\<lambda>i. recognize w (chunk_path p i)) [0..<length (split_chunks audio)]
             = map Inr before @ [Inl e] @ map Inr after"
  shows "fst (transcribe_long_audio w audio_path s)
           = Inr (py_strip (py_join ''\<newline>'' (map results_text (before @ after))))"
proof -
  let ?ics = "enumerate_py (split_chunks audio)"
  have ex: "\<forall>(i, c) \<in> set ?ics. export w (chunk_path p i) = Inr ()"
    using assms(3) by (auto simp: enumerate_py_def dest!: set_zip_leftD)
  have "map (\<lambda>(i, c). fragment (recognize w (chunk_path p i))) ?ics
          = map fragment (map (\<lambda>i. recognize w (chunk_path p i)) [0..<length (split_chunks audio)])"
    by (simp add: map_enumerate [of "\<lambda>i. fragment (recognize w (chunk_path p i))"] comp_def)
  also have "\<dots> = map fragment (map Inr before @ [Inl e] @ map Inr after)"
    by (simp only: assms(4))
  finally have "concat (map (\<lambda>(i, c). fragment (recognize w (chunk_path p i))) ?ics)
          = concat (map (\<lambda>t. t @ ''\<newline>'') (map results_text (before @ after)))"
    by (simp add: fragment_def comp_def)
  then have loop: "fst (transcribe_chunks w p ?ics [] s')
          = Inr (concat (map (\<lambda>t. t @ ''\<newline>'') (map results_text (before @ after))))"
    for s' :: "'z effects_scheme"
    using transcribe_chunks_result [OF ex, of "[]" s'] by simp
  define lines where "lines = concat (map (\<lambda>t. t @ ''\<newline>'') (map results_text (before @ after)))"
  define expected where "expected = py_strip (py_join ''\<newline>'' (map results_text (before @ after)))"
  have strip: "py_strip lines = expected"
    unfolding lines_def expected_def by (rule strip_lines)
  obtain r s2 where run:
    "transcribe_chunks w p ?ics [] (s1\<lparr>events := events s1 @ [AudioFromWav p]\<rparr>) = (r, s2)"
    by (cases "transcribe_chunks w p ?ics [] (s1\<lparr>events := events s1 @ [AudioFromWav p]\<rparr>)")
  have r: "r = Inr lines"
    using loop [of "s1\<lparr>events := events s1 @ [AudioFromWav p]\<rparr>"] run
    by (simp add: lines_def)
  have "fst (transcribe_long_audio w audio_path s) = Inr expected"
    using assms(1,2) run r strip
    by (simp add: transcribe_long_audio_def bind_def call_def ret_def)
  then show ?thesis by (simp only: expected_def)
qed


lemma upt_3: "[0..<3] = [0, 1, 2]"
  by (simp add: upt_rec)

lemma demo_chunks: "length (split_chunks (replicate 120000 (0::nat))) = 3"
  by (simp add: split_chunks_def chunk_duration_ms_def py_range.simps)

lemma demo_paths:
  "chunk_path ''a.wav'' 0 = ''a.wav_chunk_0.wav''"
  "chunk_path ''a.wav'' (Suc 0) = ''a.wav_chunk_1.wav''"
  "chunk_path ''a.wav'' 2 = ''a.wav_chunk_2.wav''"
  by code_simp+

lemma demo_strip:
  "py_strip (py_join ''\<newline>'' (map results_text [[''a.wav_chunk_0.wav''], [''a.wav_chunk_2.wav'']]))
     = ''a.wav_chunk_0.wav\<newline>a.wav_chunk_2.wav''"
  by (simp add: results_text_def py_strip_def py_lstrip_def py_rstrip_def py_isspace_def)

theorem transcribe_long_audio_one_failure_witness:
  "fst (transcribe_long_audio demo_world ''a.wav'' \<lparr>events = []\<rparr>)
     = Inr ''a.wav_chunk_0.wav\<newline>a.wav_chunk_2.wav''"
proof -
  have 1: "as_wav demo_world ''a.wav'' \<lparr>events = []\<rparr> = (Inr ''a.wav'', \<lparr>events = []\<rparr>)"
    by (simp add: as_wav_def endswith_def ret_def suffix_to_prefix)
  have 2: "from_wav demo_world ''a.wav'' = Inr (replicate 120000 0)"
    by (simp add: demo_world_def)
  have 3: "\<forall>i < length (split_chunks (replicate 120000 (0::nat))).
             export demo_world (chunk_path ''a.wav'' i) = Inr ()"
    by (simp add: demo_world_def)
  have 4: "map (\<lambda>i. recognize demo_world (chunk_path ''a.wav'' i))
               [0..<length (split_chunks (replicate 120000 (0::nat)))]
             = map Inr [[''a.wav_chunk_0.wav'']] @ [Inl (Raised ''quota'')]
               @ map Inr [[''a.wav_chunk_2.wav'']]"
    by (simp add: demo_chunks upt_3 demo_paths demo_world_def)
  show ?thesis
    using transcribe_long_audio_one_failure [OF 1 2 3 4] by (simp only: demo_strip append.simps)
qed

subsection \<open>What a function may do to the state\<close>

lemma logs_ret: "logs Q (ret x)"
  unfolding logs_def ret_def by (intro allI exI [of _ "[]"]) simp

lemma logs_raise: "logs Q (raise e)"
  unfolding logs_def raise_def by (intro allI exI [of _ "[]"]) simp

lemma logs_call: "Q ev \<Longrightarrow> logs Q (call ev outcome)"
  unfolding logs_def call_def by (intro allI exI [of _ "[ev]"]) simp

lemma logs_emit: "Q ev \<Longrightarrow> logs Q (emit ev)"
  unfolding logs_def emit_def by (intro allI exI [of _ "[ev]"]) simp

lemma logs_bind:
  assumes m: "logs Q m" and f: "\<And>x. logs Q (f x)"
  shows "logs Q (bind m f)"
  unfolding logs_def
proof
  fix s
  obtain r s1 where ms: "m s = (r, s1)" by (cases "m s")
  obtain evs1 where 1: "s1 = s\<lparr>events := events s @ evs1\<rparr>" "list_all Q evs1"
    using m ms unfolding logs_def by (metis snd_conv)
  show "\<exists>evs. snd (bind m f s) = s\<lparr>events := events s @ evs\<rparr> \<and> list_all Q evs"
  proof (cases r)
    case (Inl e)
    then show ?thesis using ms 1 by (auto simp: bind_def)
  next
    case (Inr x)
    obtain evs2 where 2: "snd (f x s1) = s1\<lparr>events := events s1 @ evs2\<rparr>" "list_all Q evs2"
      using f [of x] unfolding logs_def by blast
    have "snd (bind m f s) = s\<lparr>events := events s @ (evs1 @ evs2)\<rparr>"
      using ms Inr 1 2 by (simp add: bind_def)
    moreover have "list_all Q (evs1 @ evs2)" using 1 2 by simp
    ultimately show ?thesis by blast
  qed
qed

lemma logs_catch:
  assumes m: "logs Q m" and h: "\<And>e. logs Q (h e)"
  shows "logs Q (catch m h)"
  unfolding logs_def
proof
  fix s
  obtain r s1 where ms: "m s = (r, s1)" by (cases "m s")
  obtain evs1 where 1: "s1 = s\<lparr>events := events s @ evs1\<rparr>" "list_all Q evs1"
    using m ms unfolding logs_def by (metis snd_conv)
  show "\<exists>evs. snd (catch m h s) = s\<lparr>events := events s @ evs\<rparr> \<and> list_all Q evs"
  proof (cases r)
    case (Inr x)
    then show ?thesis using ms 1 by (auto simp: catch_def)
  next
    case (Inl e)
    obtain evs2 where 2: "snd (h e s1) = s1\<lparr>events := events s1 @ evs2\<rparr>" "list_all Q evs2"
      using h [of e] unfolding logs_def by blast
    have "snd (catch m h s) = s\<lparr>events := events s @ (evs1 @ evs2)\<rparr>"
      using ms Inl 1 2 by (simp add: catch_def)
    moreover have "list_all Q (evs1 @ evs2)" using 1 2 by simp
    ultimately show ?thesis by blast
  qed
qed

lemma logs_mono: "logs P m \<Longrightarrow> (\<And>ev. P ev \<Longrightarrow> Q ev) \<Longrightarrow> logs Q m"
  unfolding logs_def list_all_iff by blast

lemmas logs_intros = logs_ret logs_raise logs_call logs_emit logs_bind logs_catch

lemma logs_as_wav: "logs (\<lambda>ev. origin_of ev = Speech) (as_wav w p)"
  unfolding as_wav_def convert_audio_to_wav_def Let_def
  by (auto intro!: logs_intros)

lemma logs_transcribe_file: "logs (\<lambda>ev. origin_of ev = Speech) (transcribe_file w p)"
  unfolding transcribe_file_def
  by (intro logs_intros logs_as_wav) simp

lemma logs_transcribe_chunks:
  "logs (\<lambda>ev. origin_of ev \<in> {Speech, Console}) (transcribe_chunks w p ics acc)"
proof (induction ics arbitrary: acc)
  case Nil
  show ?case by (simp add: logs_ret)
next
  case (Cons ic ics)
  obtain i c where ic: "ic = (i, c)" by (cases ic)
  have tf: "logs (\<lambda>ev. origin_of ev \<in> {Speech, Console}) (transcribe_file w q)" for q
    by (rule logs_mono [OF logs_transcribe_file]) simp
  show ?case
    unfolding ic transcribe_chunks.simps
    by (intro logs_intros tf Cons.IH) simp_all
qed

lemma logs_transcribe_long_audio:
  "logs (\<lambda>ev. origin_of ev \<in> {Speech, Console}) (transcribe_long_audio w p)"
proof -
  have aw: "logs (\<lambda>ev. origin_of ev \<in> {Speech, Console}) (as_wav w p)"
    by (rule logs_mono [OF logs_as_wav]) simp
  show ?thesis
    unfolding transcribe_long_audio_def
    by (intro logs_intros aw logs_transcribe_chunks) simp
qed

lemma logs_Transcriber: "logs (\<lambda>ev. origin_of ev = Speech) (Transcriber w pid)"
  unfolding Transcriber_def by (intro logs_intros) simp

lemma logs_MinutesGenerator: "logs (\<lambda>ev. origin_of ev = Generator) (MinutesGenerator w k)"
  unfolding MinutesGenerator_def Let_def by (auto intro!: logs_intros)

lemma logs_generate_minutes: "logs (\<lambda>ev. origin_of ev = Generator) (generate_minutes w t)"
  unfolding generate_minutes_def Let_def by (intro logs_intros) simp

lemma logs_GoogleDocsClient: "logs (\<lambda>ev. origin_of ev = Docs) (GoogleDocsClient w)"
  unfolding GoogleDocsClient_def by (intro logs_intros) simp

lemma logs_get_or_create_folder: "logs (\<lambda>ev. origin_of ev = Docs) (get_or_create_folder w n)"
  unfolding get_or_create_folder_def
  by (intro logs_intros) (auto intro!: logs_intros split: list.splits)

lemma logs_update_document_content:
  "logs (\<lambda>ev. origin_of ev = Docs) (update_document_content w d c)"
  unfolding update_document_content_def by (intro logs_intros) simp

lemma logs_create_document: "logs (\<lambda>ev. origin_of ev = Docs) (create_document w t c f)"
  unfolding create_document_def
  by (intro logs_intros logs_update_document_content) (auto intro!: logs_intros)

lemma logs_get_document_url: "logs Q (get_document_url d)"
  unfolding get_document_url_def by (rule logs_ret)

lemma logs_send_message: "logs (\<lambda>ev. origin_of ev = Slack) (send_message w self m c)"
  unfolding send_message_def
  by (auto intro!: logs_intros split: exn.splits)

lemma logs_send_document_notification:
  "logs (\<lambda>ev. origin_of ev = Slack) (send_document_notification w self t u f)"
  unfolding send_document_notification_def Let_def by (rule logs_send_message)

lemma appends_logs: "logs Q m \<Longrightarrow> appends Q m"
  unfolding logs_def appends_def
proof
  fix s
  assume "\<forall>s. \<exists>evs. snd (m s) = s\<lparr>events := events s @ evs\<rparr> \<and> list_all Q evs"
  then obtain evs where e: "snd (m s) = s\<lparr>events := events s @ evs\<rparr>" "list_all Q evs" by blast
  have "events (snd (m s)) = events s @ evs" by (simp add: e(1))
  then show "\<exists>evs. events (snd (m s)) = events s @ evs \<and> list_all Q evs" using e(2) by blast
qed

lemma appends_bind:
  assumes m: "appends Q m" and f: "\<And>x. appends Q (f x)"
  shows "appends Q (bind m f)"
  unfolding appends_def
proof
  fix s
  obtain r s1 where ms: "m s = (r, s1)" by (cases "m s")
  obtain evs1 where 1: "events s1 = events s @ evs1" "list_all Q evs1"
    using m ms unfolding appends_def by (metis snd_conv)
  show "\<exists>evs. events (snd (bind m f s)) = events s @ evs \<and> list_all Q evs"
  proof (cases r)
    case (Inl e)
    then show ?thesis using ms 1 by (auto simp: bind_def)
  next
    case (Inr x)
    obtain evs2 where 2: "events (snd (f x s1)) = events s1 @ evs2" "list_all Q evs2"
      using f [of x] unfolding appends_def by blast
    have "events (snd (bind m f s)) = events s @ (evs1 @ evs2)"
      using ms Inr 1 2 by (simp add: bind_def)
    moreover have "list_all Q (evs1 @ evs2)" using 1 2 by simp
    ultimately show ?thesis by blast
  qed
qed

lemma appends_catch:
  assumes m: "appends Q m" and h: "\<And>e. appends Q (h e)"
  shows "appends Q (catch m h)"
  unfolding appends_def
proof
  fix s
  obtain r s1 where ms: "m s = (r, s1)" by (cases "m s")
  obtain evs1 where 1: "events s1 = events s @ evs1" "list_all Q evs1"
    using m ms unfolding appends_def by (metis snd_conv)
  show "\<exists>evs. events (snd (catch m h s)) = events s @ evs \<and> list_all Q evs"
  proof (cases r)
    case (Inr x)
    then show ?thesis using ms 1 by (auto simp: catch_def)
  next
    case (Inl e)
    obtain evs2 where 2: "events (snd (h e s1)) = events s1 @ evs2" "list_all Q evs2"
      using h [of e] unfolding appends_def by blast
    have "events (snd (catch m h s)) = events s @ (evs1 @ evs2)"
      using ms Inl 1 2 by (simp add: catch_def)
    moreover have "list_all Q (evs1 @ evs2)" using 1 2 by simp
    ultimately show ?thesis by blast
  qed
qed

lemma appends_set_step: "Q (StepIs label) \<Longrightarrow> appends Q (set_step label)"
  unfolding appends_def set_step_def by (intro allI exI [of _ "[StepIs label]"]) simp

lemma appends_modify: "(\<And>s. events (f s) = events s) \<Longrightarrow> appends Q (modify f)"
  unfolding appends_def modify_def by (intro allI exI [of _ "[]"]) simp

lemma appends_mono: "appends P m \<Longrightarrow> (\<And>ev. P ev \<Longrightarrow> Q ev) \<Longrightarrow> appends Q m"
  unfolding appends_def list_all_iff by blast

lemma appends_logs_mono: "logs P m \<Longrightarrow> (\<And>ev. P ev \<Longrightarrow> Q ev) \<Longrightarrow> appends Q m"
  by (rule appends_logs [OF logs_mono])

lemma appends_step2:
  "appends (\<lambda>ev. origin_of ev \<in> {Status, Generator}) (step2_minutes w t)"
  unfolding step2_minutes_def
  by (intro appends_bind appends_set_step appends_modify
        appends_logs_mono [OF logs_MinutesGenerator] appends_logs_mono [OF logs_generate_minutes]
        appends_logs [OF logs_ret]) simp_all

lemma appends_step3:
  "appends (\<lambda>ev. origin_of ev \<in> {Status, Docs}) (step3_docs w m)"
  unfolding step3_docs_def Let_def
  by (intro appends_bind appends_set_step appends_modify
        appends_logs_mono [OF logs_GoogleDocsClient] appends_logs_mono [OF logs_get_or_create_folder]
        appends_logs_mono [OF logs_create_document] appends_logs [OF logs_get_document_url]
        appends_logs [OF logs_ret]) simp_all

lemma appends_step4:
  "appends (\<lambda>ev. origin_of ev \<in> {Status, Slack}) (step4_slack w doc)"
proof -
  obtain title url folder_name where doc: "doc = (title, url, folder_name)" by (cases doc)
  show ?thesis
    unfolding doc step4_slack_def prod.case
    by (intro appends_bind appends_set_step appends_modify
          appends_logs_mono [OF logs_send_document_notification]) simp_all
qed

lemma appends_later_steps:
  "appends (\<lambda>ev. origin_of ev \<in> {Status, Generator, Docs, Slack})
     (bind (step2_minutes w t) (\<lambda>m. bind (step3_docs w m) (\<lambda>doc. step4_slack w doc)))"
  by (intro appends_bind appends_mono [OF appends_step2] appends_mono [OF appends_step3]
        appends_mono [OF appends_step4]) auto

lemma appends_handler:
  "appends Q (modify (\<lambda>r. r\<lparr>status := ''error'', error := Some (str_exn e),
                              traceback := Some (format_exc w e)\<rparr>))"
  by (rule appends_modify) simp

lemma keeps_ret: "keeps f (ret x)"
  by (simp add: keeps_def ret_def)

lemma keeps_bind:
  assumes "keeps f m" and "\<And>x. keeps f (g x)"
  shows "keeps f (bind m g)"
  unfolding keeps_def
proof
  fix s
  obtain r s1 where ms: "m s = (r, s1)" by (cases "m s")
  have 1: "f s1 = f s" using assms(1) ms unfolding keeps_def by (metis snd_conv)
  show "f (snd (bind m g s)) = f s"
  proof (cases r)
    case (Inl e)
    then show ?thesis using ms 1 by (simp add: bind_def)
  next
    case (Inr x)
    have "f (snd (g x s1)) = f s1" using assms(2) [of x] unfolding keeps_def by blast
    then show ?thesis using ms Inr 1 by (simp add: bind_def)
  qed
qed

lemma keeps_logs:
  assumes "logs Q m" and "\<And>s evs. f (s\<lparr>events := evs\<rparr>) = f s"
  shows "keeps f m"
  unfolding keeps_def
proof
  fix s
  obtain evs where "snd (m s) = s\<lparr>events := events s @ evs\<rparr>"
    using assms(1) unfolding logs_def by blast
  then show "f (snd (m s)) = f s" by (simp add: assms(2))
qed

lemma keeps_set_step:
  "(\<And>s l evs. f (s\<lparr>step := l, events := evs\<rparr>) = f s) \<Longrightarrow> keeps f (set_step label)"
  by (simp add: keeps_def set_step_def)

lemma keeps_modify: "(\<And>s. f (g s) = f s) \<Longrightarrow> keeps f (modify g)"
  by (simp add: keeps_def modify_def)

lemma keeps_if: "keeps f a \<Longrightarrow> keeps f b \<Longrightarrow> keeps f (if c then a else b)"
  by simp

lemma keeps_step1:
  "keeps (\<lambda>r. (status r, minutes r, document_url r, document_title r, slack_message r, error r))
     (step1_transcription w file_path)"
  unfolding step1_transcription_def Let_def
  by (intro keeps_if keeps_bind keeps_ret keeps_set_step keeps_modify
        keeps_logs [OF logs_call] keeps_logs [OF logs_Transcriber]
        keeps_logs [OF logs_transcribe_long_audio] keeps_logs [OF logs_transcribe_file])
     simp_all


subsection \<open>The steps of a run\<close>

lemma later_events:
  "\<exists>evs. events (snd (catch (bind (step2_minutes w t)
                          (\<lambda>m. bind (step3_docs w m) (\<lambda>doc. step4_slack w doc)))
                        (\<lambda>e. modify (\<lambda>r. r\<lparr>status := ''error'', error := Some (str_exn e),
                                             traceback := Some (format_exc w e)\<rparr>)) r))
           = events r @ StepIs ''generating_minutes'' # evs
         \<and> list_all (\<lambda>ev. origin_of ev \<in> {Status, Generator, Docs, Slack}) evs"
proof -
  let ?Q = "\<lambda>ev. origin_of ev \<in> {Status, Generator, Docs, Slack}"
  let ?K = "\<lambda>m. bind (step3_docs w m) (\<lambda>doc. step4_slack w doc)"
  let ?H = "\<lambda>e. modify (\<lambda>r. r\<lparr>status := ''error'', error := Some (str_exn e),
                                  traceback := Some (format_exc w e)\<rparr>)"
  let ?rest = "bind (bind (MinutesGenerator w None) (\<lambda>_.
                 bind (generate_minutes w t) (\<lambda>m.
                 bind (modify (\<lambda>r. r\<lparr>minutes := Some m\<rparr>)) (\<lambda>_. ret m)))) ?K"
  let ?r2 = "r\<lparr>step := ''generating_minutes'',
               events := events r @ [StepIs ''generating_minutes'']\<rparr>"
  have eq: "catch (bind (step2_minutes w t) ?K) ?H r = catch ?rest ?H ?r2"
    by (simp add: step2_minutes_def bind_def set_step_def catch_def)
  have "appends ?Q (catch ?rest ?H)"
    by (intro appends_catch appends_bind appends_modify
          appends_logs_mono [OF logs_MinutesGenerator] appends_logs_mono [OF logs_generate_minutes]
          appends_logs [OF logs_ret] appends_mono [OF appends_step3] appends_mono [OF appends_step4])
       auto
  then obtain evs where
    "events (snd (catch ?rest ?H ?r2)) = events ?r2 @ evs" "list_all ?Q evs"
    unfolding appends_def by blast
  then show ?thesis by (simp add: eq)
qed

lemma step1_text:
  assumes "is_text_file (basename file_path)"
  shows "step1_transcription w file_path r =
           (case open_read w file_path of
              Inl e \<Rightarrow> (Inl e, r\<lparr>step := ''transcription'',
                               events := events r @ [StepIs ''transcription'', OpenRead file_path]\<rparr>)
            | Inr t \<Rightarrow> (Inr t, r\<lparr>step := ''transcription'',
                               events := events r @ [StepIs ''transcription'', OpenRead file_path],
                               transcript := Some t\<rparr>))"
  using assms
  by (simp add: step1_transcription_def bind_def set_step_def call_def modify_def ret_def
           split: sum.splits)

text \<open>
  C6. A run on a text file, one whose name ends in \<open>.txt\<close> or \<open>.md\<close>: no event of
  the run comes from the transcription collaborator (no \<open>Transcriber\<close> is built,
  no audio is loaded, nothing is recognised), and yet the \<open>step\<close> key reads
  \<open>transcription\<close> twice, once when the record is created and once when the step
  starts, before it reads anything else; when the file can be read, the next
  label is \<open>generating_minutes\<close>.
\<close>

theorem text_input_skips_transcriber:
  assumes "is_text_file (basename file_path)"
  shows "(\<forall>ev \<in> set (events (process_audio_file w file_path)). origin_of ev \<noteq> Speech)
       \<and> take 2 (step_history (events (process_audio_file w file_path)))
           = [''transcription'', ''transcription'']
       \<and> (\<forall>t. open_read w file_path = Inr t \<longrightarrow>
             take 3 (step_history (events (process_audio_file w file_path)))
               = [''transcription'', ''transcription'', ''generating_minutes''])"
proof (cases "open_read w file_path")
  case (Inl e)
  have "events (process_audio_file w file_path)
          = [StepIs ''transcription'', StepIs ''transcription'', OpenRead file_path]"
    using Inl
    by (simp add: process_audio_file_def catch_def bind_def modify_def new_result_def
                  step1_text [OF assms])
  then show ?thesis using Inl by simp
next
  case (Inr t)
  define r1 where "r1 = new_result\<lparr>step := ''transcription'',
      events := events new_result @ [StepIs ''transcription'', OpenRead file_path],
      transcript := Some t\<rparr>"
  have s1: "step1_transcription w file_path new_result = (Inr t, r1)"
    using Inr by (simp add: step1_text [OF assms] r1_def)
  obtain evs where evs:
    "events (snd (catch (bind (step2_minutes w t)
                          (\<lambda>m. bind (step3_docs w m) (\<lambda>doc. step4_slack w doc)))
                        (\<lambda>e. modify (\<lambda>r. r\<lparr>status := ''error'', error := Some (str_exn e),
                                             traceback := Some (format_exc w e)\<rparr>)) r1))
       = events r1 @ StepIs ''generating_minutes'' # evs"
    "list_all (\<lambda>ev. origin_of ev \<in> {Status, Generator, Docs, Slack}) evs"
    using later_events [of w t r1] by blast
  have run: "process_audio_file w file_path
          = snd (catch (bind (step2_minutes w t)
                          (\<lambda>m. bind (step3_docs w m) (\<lambda>doc. step4_slack w doc)))
                        (\<lambda>e. modify (\<lambda>r. r\<lparr>status := ''error'', error := Some (str_exn e),
                                             traceback := Some (format_exc w e)\<rparr>)) r1)"
    using s1 by (simp add: process_audio_file_def catch_def bind_def)
  have ev: "events (process_audio_file w file_path)
          = StepIs ''transcription'' # StepIs ''transcription'' # OpenRead file_path
            # StepIs ''generating_minutes'' # evs"
    by (simp add: run evs(1)) (simp add: r1_def new_result_def)
  have "\<forall>ev \<in> set evs. origin_of ev \<noteq> Speech"
    using evs(2) by (auto simp: list_all_iff)
  then show ?thesis using Inr by (simp add: ev)
qed

theorem text_input_skips_transcriber_witness:
  "is_text_file (basename ''uploads/notes.txt'')
   \<and> open_read demo_world ''uploads/notes.txt'' = Inr ''notes''
   \<and> filter (\<lambda>ev. origin_of ev = Speech)
         (events (process_audio_file demo_world ''uploads/notes.txt'')) = []
   \<and> take 3 (step_history (events (process_audio_file demo_world ''uploads/notes.txt'')))
       = [''transcription'', ''transcription'', ''generating_minutes'']"
proof -
  have t: "is_text_file (basename ''uploads/notes.txt'')"
    by (simp add: is_text_file_def basename_def endswith_def suffix_to_prefix)
  have o: "open_read demo_world ''uploads/notes.txt'' = Inr ''notes''"
    by (simp add: demo_world_def)
  note run = text_input_skips_transcriber [OF t, of demo_world]
  have quiet: "\<forall>ev \<in> set (events (process_audio_file demo_world ''uploads/notes.txt'')).
                 origin_of ev \<noteq> Speech"
    using run by blast
  have none: "filter (\<lambda>ev. origin_of ev = Speech)
                (events (process_audio_file demo_world ''uploads/notes.txt'')) = []"
    using quiet by (simp add: filter_empty_conv)
  have labels: "take 3 (step_history (events (process_audio_file demo_world ''uploads/notes.txt'')))
       = [''transcription'', ''transcription'', ''generating_minutes'']"
    using run o by blast
  show ?thesis using t o none labels by blast
qed

text \<open>
  C5. A run whose first step has returned a transcript \<open>t\<close>, whose
  \<open>MinutesGenerator\<close> has been built, and whose \<open>generate_minutes\<close> call raises \<open>e\<close>:
  the record ends with the status \<open>error\<close> and the text of \<open>e\<close>; \<open>document_url\<close>,
  \<open>document_title\<close> and \<open>slack_message\<close> are still \<open>None\<close>; the step is still
  \<open>generating_minutes\<close>; and the failing call is the last event of the run, so
  nothing of the document store or of Slack was called.
\<close>

theorem generate_minutes_failure:
  assumes s1: "step1_transcription w file_path new_result = (Inr t, r1)"
      and key: "truthy (getenv w ''OPENAI_API_KEY'')"
      and cl: "openai_client w = Inr ()"
      and fail: "chat_completion w (create_prompt w t) = Inl e"
  shows "status (process_audio_file w file_path) = ''error''
       \<and> error (process_audio_file w file_path) = Some (str_exn e)
       \<and> document_url (process_audio_file w file_path) = None
       \<and> document_title (process_audio_file w file_path) = None
       \<and> slack_message (process_audio_file w file_path) = None
       \<and> step (process_audio_file w file_path) = ''generating_minutes''
       \<and> events (process_audio_file w file_path)
           = events r1 @ [StepIs ''generating_minutes'', NewMinutesGenerator,
                          ChatCompletion (create_prompt w t)]"
proof -
  have "(status r1, minutes r1, document_url r1, document_title r1, slack_message r1, error r1)
      = (status new_result, minutes new_result, document_url new_result,
         document_title new_result, slack_message new_result, error new_result)"
    using keeps_step1 [of w file_path] s1 unfolding keeps_def by (metis snd_conv)
  then have fields: "document_url r1 = None" "document_title r1 = None" "slack_message r1 = None"
    by (simp_all add: new_result_def)
  have run: "process_audio_file w file_path
      = r1\<lparr>step := ''generating_minutes'',
           events := events r1 @ [StepIs ''generating_minutes'', NewMinutesGenerator,
                                  ChatCompletion (create_prompt w t)],
           status := ''error'', error := Some (str_exn e),
           traceback := Some (format_exc w e)\<rparr>"
    using s1 key cl fail
    by (simp add: process_audio_file_def catch_def bind_def step2_minutes_def set_step_def
                  MinutesGenerator_def generate_minutes_def call_def modify_def)
  show ?thesis by (simp add: run fields)
qed

theorem generate_minutes_failure_witness:
  "status (process_audio_file failing_generator_world ''uploads/notes.txt'') = ''error''
   \<and> error (process_audio_file failing_generator_world ''uploads/notes.txt'') = Some ''rate limit''
   \<and> document_url (process_audio_file failing_generator_world ''uploads/notes.txt'') = None
   \<and> document_title (process_audio_file failing_generator_world ''uploads/notes.txt'') = None
   \<and> slack_message (process_audio_file failing_generator_world ''uploads/notes.txt'') = None
   \<and> events (process_audio_file failing_generator_world ''uploads/notes.txt'')
       = [StepIs ''transcription'', StepIs ''transcription'', OpenRead ''uploads/notes.txt'',
          StepIs ''generating_minutes'', NewMinutesGenerator, ChatCompletion ''<notes>'']"
proof -
  have t: "is_text_file (basename ''uploads/notes.txt'')"
    by (simp add: is_text_file_def basename_def endswith_def suffix_to_prefix)
  have 1: "step1_transcription failing_generator_world ''uploads/notes.txt'' new_result
         = (Inr ''notes'', new_result\<lparr>step := ''transcription'',
               events := events new_result @ [StepIs ''transcription'', OpenRead ''uploads/notes.txt''],
               transcript := Some ''notes''\<rparr>)"
    by (simp add: step1_text [OF t] failing_generator_world_def demo_world_def)
  have 2: "truthy (getenv failing_generator_world ''OPENAI_API_KEY'')"
    by (simp add: failing_generator_world_def)
  have 3: "openai_client failing_generator_world = Inr ()"
    by (simp add: failing_generator_world_def demo_world_def)
  have 4: "chat_completion failing_generator_world (create_prompt failing_generator_world ''notes'')
         = Inl (Raised ''rate limit'')"
    by (simp add: failing_generator_world_def)
  have p: "create_prompt failing_generator_world ''notes'' = ''<notes>''"
    by (simp add: create_prompt_def failing_generator_world_def demo_world_def demo_literals_def)
  show ?thesis
    using generate_minutes_failure [OF 1 2 3 4] by (simp add: p new_result_def)
qed


subsection \<open>Slack delivery\<close>

lemma events_grow_neq: "s\<lparr>events := events s @ [ev]\<rparr> \<noteq> (s :: 'z effects_scheme)"
proof
  assume "s\<lparr>events := events s @ [ev]\<rparr> = s"
  then have "events (s\<lparr>events := events s @ [ev]\<rparr>) = events s" by simp
  then show False by simp
qed

text \<open>
  C7. \<open>send_message\<close> raises with the state untouched, so with no delivery tried,
  exactly when the webhook URL is not set (it is \<open>None\<close> or empty) and there is no
  client together with a channel (the client is missing, or the channel is
  \<open>None\<close> or empty); the exception is then the \<open>ValueError\<close> of the last branch. When
  the webhook URL is set, the one call made is the post to the webhook, whatever
  the channel is, \<open>None\<close> included.
\<close>

theorem send_message_not_configured:
  fixes s :: "'z effects_scheme"
  shows "((\<exists>e. send_message w self message channel s = (Inl e, s))
            \<longleftrightarrow> \<not> truthy (webhook_url self) \<and> \<not> (client self \<noteq> None \<and> truthy channel))
       \<and> (\<not> truthy (webhook_url self) \<and> \<not> (client self \<noteq> None \<and> truthy channel) \<longrightarrow>
            send_message w self message channel s
              = (Inl (ValueError (lit_not_configured (lits w))), s))
       \<and> (truthy (webhook_url self) \<longrightarrow>
            send_message w self message channel s
              = (webhook_post w (the (webhook_url self)) message,
                 s\<lparr>events := events s @ [WebhookPost (the (webhook_url self)) message]\<rparr>))"
proof -
  have hook: "send_message w self message channel s
              = (webhook_post w (the (webhook_url self)) message,
                 s\<lparr>events := events s @ [WebhookPost (the (webhook_url self)) message]\<rparr>)"
    if "truthy (webhook_url self)"
    using that by (simp add: send_message_def call_def)
  have bot: "snd (send_message w self message channel s)
              = s\<lparr>events := events s @ [ChatPostMessage (the channel) message]\<rparr>"
    if "\<not> truthy (webhook_url self)" "client self \<noteq> None \<and> truthy channel"
    using that
    by (simp add: send_message_def call_def catch_def raise_def split: sum.splits exn.splits)
  have none: "send_message w self message channel s
              = (Inl (ValueError (lit_not_configured (lits w))), s)"
    if "\<not> truthy (webhook_url self)" "\<not> (client self \<noteq> None \<and> truthy channel)"
    using that by (auto simp add: send_message_def raise_def)
  have iff: "(\<exists>e. send_message w self message channel s = (Inl e, s))
            \<longleftrightarrow> \<not> truthy (webhook_url self) \<and> \<not> (client self \<noteq> None \<and> truthy channel)"
  proof (cases "truthy (webhook_url self)")
    case True
    then show ?thesis using hook [OF True] events_grow_neq [of s] by auto
  next
    case False
    show ?thesis
    proof (cases "client self \<noteq> None \<and> truthy channel")
      case True
      have "send_message w self message channel s \<noteq> (Inl e, s)" for e
        using bot [OF False True] events_grow_neq [of s] by (metis snd_conv)
      then show ?thesis using False True by blast
    next
      case F2: False
      then show ?thesis using none [OF False F2] False by blast
    qed
  qed
  show ?thesis using iff hook none by blast
qed

theorem send_message_not_configured_witness:
  "send_message demo_world (SlackClient demo_world None None) ''hello'' None \<lparr>events = []\<rparr>
     = (Inl (ValueError ''not configured''), \<lparr>events = []\<rparr>)
   \<and> send_message demo_world (SlackClient demo_world (Some ''https://hooks.example/T'') None)
        ''hello'' None \<lparr>events = []\<rparr>
     = (Inr (), \<lparr>events = [WebhookPost ''https://hooks.example/T'' ''hello'']\<rparr>)"
proof -
  have a: "\<not> truthy (webhook_url (SlackClient demo_world None None))
         \<and> \<not> (client (SlackClient demo_world None None) \<noteq> None \<and> truthy None)"
    by (simp add: SlackClient_def Let_def demo_world_def)
  have b: "truthy (webhook_url (SlackClient demo_world (Some ''https://hooks.example/T'') None))"
    by (simp add: SlackClient_def Let_def)
  have 1: "send_message demo_world (SlackClient demo_world None None) ''hello'' None \<lparr>events = []\<rparr>
     = (Inl (ValueError ''not configured''), \<lparr>events = []\<rparr>)"
    using send_message_not_configured
            [of demo_world "SlackClient demo_world None None" "''hello''" None "\<lparr>events = []\<rparr>"] a
    by (simp add: demo_world_def demo_literals_def)
  have 2: "send_message demo_world (SlackClient demo_world (Some ''https://hooks.example/T'') None)
        ''hello'' None \<lparr>events = []\<rparr>
     = (Inr (), \<lparr>events = [WebhookPost ''https://hooks.example/T'' ''hello'']\<rparr>)"
    using send_message_not_configured
            [of demo_world "SlackClient demo_world (Some ''https://hooks.example/T'') None"
                "''hello''" None "\<lparr>events = []\<rparr>"] b
    by (simp add: SlackClient_def Let_def demo_world_def)
  show ?thesis using 1 2 by blast
qed

text \<open>
  C10. A client built with both a webhook URL and a bot token has a \<open>WebClient\<close>,
  and still, for every message and every channel, \<open>send_message\<close> makes exactly one
  call, the post to the webhook; its outcome is the outcome of that post.
\<close>

theorem webhook_takes_priority:
  fixes s :: "'z effects_scheme"
  assumes "truthy (webhook_url (SlackClient w webhook_arg token_arg))"
      and "truthy (bot_token (SlackClient w webhook_arg token_arg))"
  shows "client (SlackClient w webhook_arg token_arg) \<noteq> None
       \<and> send_message w (SlackClient w webhook_arg token_arg) message channel s
           = (webhook_post w (the (webhook_url (SlackClient w webhook_arg token_arg))) message,
              s\<lparr>events := events s
                   @ [WebhookPost (the (webhook_url (SlackClient w webhook_arg token_arg))) message]\<rparr>)"
proof -
  have c: "client (SlackClient w webhook_arg token_arg) \<noteq> None"
    using assms(2)
    by (cases token_arg; cases "getenv w ''SLACK_BOT_TOKEN''") (auto simp: SlackClient_def Let_def)
  have m: "send_message w (SlackClient w webhook_arg token_arg) message channel s
           = (webhook_post w (the (webhook_url (SlackClient w webhook_arg token_arg))) message,
              s\<lparr>events := events s
                   @ [WebhookPost (the (webhook_url (SlackClient w webhook_arg token_arg))) message]\<rparr>)"
    using assms(1) by (simp add: send_message_def call_def)
  show ?thesis using c by (simp add: m)
qed

theorem webhook_takes_priority_witness:
  "send_message demo_world (SlackClient demo_world (Some ''https://hooks.example/T'') (Some ''xoxb-1''))
        ''hello'' (Some ''#general'') \<lparr>events = []\<rparr>
     = (Inr (), \<lparr>events = [WebhookPost ''https://hooks.example/T'' ''hello'']\<rparr>)
   \<and> client (SlackClient demo_world (Some ''https://hooks.example/T'') (Some ''xoxb-1'')) = Some ''xoxb-1''"
proof -
  have a: "truthy (webhook_url (SlackClient demo_world (Some ''https://hooks.example/T'') (Some ''xoxb-1'')))"
    by (simp add: SlackClient_def Let_def)
  have b: "truthy (bot_token (SlackClient demo_world (Some ''https://hooks.example/T'') (Some ''xoxb-1'')))"
    by (simp add: SlackClient_def Let_def)
  show ?thesis
    using webhook_takes_priority [OF a b, of "''hello''" "Some ''#general''" "\<lparr>events = []\<rparr>"]
    by (simp add: SlackClient_def Let_def demo_world_def)
qed


subsection \<open>Routing by duration\<close>

lemma sixty_seconds: "(60 \<le> duration_seconds audio) = (60000 \<le> length audio)"
proof -
  have "(60 \<le> real (length audio) / 1000) = (60 * 1000 \<le> real (length audio))"
    by (rule pos_le_divide_eq) simp
  also have "\<dots> = (real (60000::nat) \<le> real (length audio))" by simp
  also have "\<dots> = (60000 \<le> length audio)" by (rule of_nat_le_iff)
  finally show ?thesis by (simp add: duration_seconds_def)
qed

lemma prefix_takeWhile:
  "\<forall>x \<in> set xs. P x \<Longrightarrow> prefix xs (takeWhile P ys) = prefix xs ys"
proof (induction ys arbitrary: xs)
  case Nil
  then show ?case by simp
next
  case (Cons y ys)
  show ?case
  proof (cases xs)
    case Nil
    then show ?thesis by simp
  next
    case (Cons x xs')
    then show ?thesis using Cons.prems Cons.IH [of xs'] by auto
  qed
qed

lemma suffix_basename:
  "CHR ''/'' \<notin> set t \<Longrightarrow> suffix t (basename p) = suffix t p"
  unfolding basename_def suffix_to_prefix rev_rev_ident
  by (rule prefix_takeWhile) auto

lemma is_text_file_basename:
  "is_text_file (basename p) = (endswith p ''.txt'' \<or> endswith p ''.md'')"
  by (simp add: is_text_file_def endswith_def suffix_basename)

text \<open>
  C4. An audio input whose \<open>Transcriber\<close> has been built and whose clip has been
  loaded: after the same three events, the first step of \<open>process_audio_file\<close> and
  the first step of \<open>main\<close> both continue with \<open>transcribe_long_audio\<close> when the clip
  has 60000 ms or more, and with \<open>transcribe_file\<close> when it has fewer. The source
  compares \<open>len(audio) / 1000.0 >= 60\<close>; the quotient is modelled as a real number,
  which decides the comparison as the floating-point quotient does, since 60 is
  the exact quotient at 60000 ms and rounding keeps the order.
\<close>

theorem duration_routing:
  fixes r :: run and s :: "'z effects_scheme"
  assumes "\<not> is_text_file (basename file_path)"
      and "speech_client w = Inr ()"
      and "from_file w file_path = Inr audio"
  shows "step1_transcription w file_path r
           = bind (if 60000 \<le> length audio then transcribe_long_audio w file_path
                   else transcribe_file w file_path)
                  (\<lambda>t. bind (modify (\<lambda>r. r\<lparr>transcript := Some t\<rparr>)) (\<lambda>_. ret t))
                  (r\<lparr>step := ''transcription'',
                     events := events r @ [StepIs ''transcription'',
                                           NewTranscriber (getenv w ''GOOGLE_CLOUD_PROJECT_ID''),
                                           AudioFromFile file_path]\<rparr>)
       \<and> main_step1 w file_path s
           = bind (if 60000 \<le> length audio then transcribe_long_audio w file_path
                   else transcribe_file w file_path)
                  (\<lambda>t. bind (emit (Print (lit_done_head (lits w) @ py_str_nat (length t)
                                           @ lit_done_tail (lits w)))) (\<lambda>_. ret t))
                  (s\<lparr>events := events s @ [Print (''\<newline>'' @ replicate 50 CHR ''=''),
                                           Print (lit_transcribing (lits w)),
                                           Print (replicate 50 CHR ''=''),
                                           NewTranscriber (getenv w ''GOOGLE_CLOUD_PROJECT_ID''),
                                           AudioFromFile file_path]\<rparr>)"
proof -
  have web: "step1_transcription w file_path r
           = bind (if 60000 \<le> length audio then transcribe_long_audio w file_path
                   else transcribe_file w file_path)
                  (\<lambda>t. bind (modify (\<lambda>r. r\<lparr>transcript := Some t\<rparr>)) (\<lambda>_. ret t))
                  (r\<lparr>step := ''transcription'',
                     events := events r @ [StepIs ''transcription'',
                                           NewTranscriber (getenv w ''GOOGLE_CLOUD_PROJECT_ID''),
                                           AudioFromFile file_path]\<rparr>)"
    using assms
    by (simp add: step1_transcription_def Transcriber_def bind_def set_step_def call_def
                  sixty_seconds)
  have "\<not> (endswith file_path ''.txt'' \<or> endswith file_path ''.md'')"
    using assms(1) is_text_file_basename [of file_path] by blast
  then have cli: "main_step1 w file_path s
           = bind (if 60000 \<le> length audio then transcribe_long_audio w file_path
                   else transcribe_file w file_path)
                  (\<lambda>t. bind (emit (Print (lit_done_head (lits w) @ py_str_nat (length t)
                                           @ lit_done_tail (lits w)))) (\<lambda>_. ret t))
                  (s\<lparr>events := events s @ [Print (''\<newline>'' @ replicate 50 CHR ''=''),
                                           Print (lit_transcribing (lits w)),
                                           Print (replicate 50 CHR ''=''),
                                           NewTranscriber (getenv w ''GOOGLE_CLOUD_PROJECT_ID''),
                                           AudioFromFile file_path]\<rparr>)"
    using assms(2,3)
    by (simp add: main_step1_def Transcriber_def bind_def emit_def call_def sixty_seconds)
  show ?thesis using web cli by (rule conjI)
qed

theorem duration_routing_witness:
  "step1_transcription (demo_world\<lparr>from_file := (\<lambda>_. Inr (replicate 60000 0))\<rparr>)
       ''uploads/a.mp3'' new_result
     = bind (transcribe_long_audio (demo_world\<lparr>from_file := (\<lambda>_. Inr (replicate 60000 0))\<rparr>)
               ''uploads/a.mp3'')
            (\<lambda>t. bind (modify (\<lambda>r. r\<lparr>transcript := Some t\<rparr>)) (\<lambda>_. ret t))
            (new_result\<lparr>step := ''transcription'',
               events := [StepIs ''transcription'', StepIs ''transcription'', NewTranscriber None,
                          AudioFromFile ''uploads/a.mp3'']\<rparr>)
   \<and> step1_transcription (demo_world\<lparr>from_file := (\<lambda>_. Inr (replicate 59999 0))\<rparr>)
       ''uploads/a.mp3'' new_result
     = bind (transcribe_file (demo_world\<lparr>from_file := (\<lambda>_. Inr (replicate 59999 0))\<rparr>)
               ''uploads/a.mp3'')
            (\<lambda>t. bind (modify (\<lambda>r. r\<lparr>transcript := Some t\<rparr>)) (\<lambda>_. ret t))
            (new_result\<lparr>step := ''transcription'',
               events := [StepIs ''transcription'', StepIs ''transcription'', NewTranscriber None,
                          AudioFromFile ''uploads/a.mp3'']\<rparr>)"
proof -
  have a: "\<not> is_text_file (basename ''uploads/a.mp3'')"
    by (simp add: is_text_file_def basename_def endswith_def suffix_to_prefix)
  have long: "step1_transcription (demo_world\<lparr>from_file := (\<lambda>_. Inr (replicate 60000 0))\<rparr>)
       ''uploads/a.mp3'' new_result
     = bind (transcribe_long_audio (demo_world\<lparr>from_file := (\<lambda>_. Inr (replicate 60000 0))\<rparr>)
               ''uploads/a.mp3'')
            (\<lambda>t. bind (modify (\<lambda>r. r\<lparr>transcript := Some t\<rparr>)) (\<lambda>_. ret t))
            (new_result\<lparr>step := ''transcription'',
               events := [StepIs ''transcription'', StepIs ''transcription'', NewTranscriber None,
                          AudioFromFile ''uploads/a.mp3'']\<rparr>)"
    using duration_routing [OF a, of "demo_world\<lparr>from_file := (\<lambda>_. Inr (replicate 60000 0))\<rparr>"
                                  "replicate 60000 0" new_result "\<lparr>events = []\<rparr>"]
    by (simp add: demo_world_def new_result_def)
  have short: "step1_transcription (demo_world\<lparr>from_file := (\<lambda>_. Inr (replicate 59999 0))\<rparr>)
       ''uploads/a.mp3'' new_result
     = bind (transcribe_file (demo_world\<lparr>from_file := (\<lambda>_. Inr (replicate 59999 0))\<rparr>)
               ''uploads/a.mp3'')
            (\<lambda>t. bind (modify (\<lambda>r. r\<lparr>transcript := Some t\<rparr>)) (\<lambda>_. ret t))
            (new_result\<lparr>step := ''transcription'',
               events := [StepIs ''transcription'', StepIs ''transcription'', NewTranscriber None,
                          AudioFromFile ''uploads/a.mp3'']\<rparr>)"
    using duration_routing [OF a, of "demo_world\<lparr>from_file := (\<lambda>_. Inr (replicate 59999 0))\<rparr>"
                                  "replicate 59999 0" new_result "\<lparr>events = []\<rparr>"]
    by (simp add: demo_world_def new_result_def)
  show ?thesis using long short by (rule conjI)
qed

subsection \<open>Extensions in another case\<close>

lemma takeWhile_ext:
  assumes "CHR ''.'' \<notin> set ext"
  shows "takeWhile (\<lambda>c. c \<noteq> CHR ''.'') (rev ext @ CHR ''.'' # rev stem) = rev ext"
proof -
  have "takeWhile (\<lambda>c. c \<noteq> CHR ''.'') (rev ext @ CHR ''.'' # rev stem)
          = rev ext @ takeWhile (\<lambda>c. c \<noteq> CHR ''.'') (CHR ''.'' # rev stem)"
  proof (rule takeWhile_append2)
    fix x assume "x \<in> set (rev ext)"
    then show "x \<noteq> CHR ''.''" using assms by auto
  qed
  then show ?thesis by simp
qed

lemma rsplit1_ext:
  assumes "CHR ''.'' \<notin> set ext"
  shows "rsplit1 CHR ''.'' (stem @ ''.'' @ ext) ! 1 = ext"
proof -
  have r: "rev (stem @ ''.'' @ ext) = rev ext @ CHR ''.'' # rev stem" by simp
  have m: "CHR ''.'' \<in> set (stem @ ''.'' @ ext)" by simp
  have "rsplit1 CHR ''.'' (stem @ ''.'' @ ext) ! 1
          = rev (takeWhile (\<lambda>c. c \<noteq> CHR ''.'') (rev (stem @ ''.'' @ ext)))"
    unfolding rsplit1_def using m by (simp del: rev_append set_append)
  also have "\<dots> = rev (rev ext)"
    unfolding r takeWhile_ext [OF assms] ..
  finally show ?thesis by simp
qed

lemma own_suffix:
  assumes "suffix t (saved @ ext)" and "length ext \<le> length t"
  shows "suffix ext t"
proof -
  have "suffix ext (saved @ ext)" by (rule suffix_appendI) simp
  then show ?thesis using assms by (rule suffix_length_suffix)
qed

lemma lower_xt: "py_lower ''xt'' = ''xt''"
  by code_simp

lemma suffixes_txt: "suffix e ''.txt'' \<Longrightarrow> e \<in> {''.txt'', ''txt'', ''xt'', ''t'', []}"
  by (simp add: suffix_Cons)

lemma suffixes_md: "suffix e ''.md'' \<Longrightarrow> e \<in> {''.md'', ''md'', ''d'', []}"
  by (simp add: suffix_Cons)

lemma not_text_when_case_differs:
  assumes dot: "CHR ''.'' \<notin> set ext"
      and low: "py_lower ext \<in> {''txt'', ''md''}"
      and neq: "ext \<notin> {''txt'', ''md''}"
  shows "\<not> is_text_file (saved @ ext)"
proof -
  have l: "length ext = length (py_lower ext)" by (simp add: py_lower_def)
  consider (three) "py_lower ext = ''txt''" | (two) "py_lower ext = ''md''"
    using low by blast
  then have len: "length ext = 3 \<and> py_lower ext = ''txt'' \<or> length ext = 2 \<and> py_lower ext = ''md''"
  proof cases
    case three
    have "length ext = 3" unfolding l three by simp
    then show ?thesis using three by blast
  next
    case two
    have "length ext = 2" unfolding l two by simp
    then show ?thesis using two by blast
  qed
  have no_txt: "False" if "suffix ''.txt'' (saved @ ext)"
  proof -
    have "length ext \<le> length ''.txt''" using len by auto
    then have "suffix ext ''.txt''" by (rule own_suffix [OF that])
    then have "ext \<in> {''.txt'', ''txt'', ''xt'', ''t'', []}" by (rule suffixes_txt)
    then consider "ext = ''.txt''" | "ext = ''txt''" | "ext = ''xt''" | "ext = ''t''" | "ext = []"
      by blast
    then show False
    proof cases
      case 1 with dot show False by simp
    next
      case 2 with neq show False by simp
    next
      case 3 with len lower_xt show False by simp
    next
      case 4 with len show False by simp
    next
      case 5 with len show False by simp
    qed
  qed
  have no_md: "False" if "suffix ''.md'' (saved @ ext)"
  proof -
    have "length ext \<le> length ''.md''" using len by auto
    then have "suffix ext ''.md''" by (rule own_suffix [OF that])
    then have "ext \<in> {''.md'', ''md'', ''d'', []}" by (rule suffixes_md)
    then consider "ext = ''.md''" | "ext = ''md''" | "ext = ''d''" | "ext = []"
      by blast
    then show False
    proof cases
      case 1 with dot show False by simp
    next
      case 2 with neq show False by simp
    next
      case 3 with len show False by simp
    next
      case 4 with len show False by simp
    qed
  qed
  show ?thesis using no_txt no_md unfolding is_text_file_def endswith_def by blast
qed

lemma audio_run_events:
  assumes "\<not> is_text_file (basename file_path)"
  shows "\<exists>evs. events (process_audio_file w file_path)
             = StepIs ''transcription'' # StepIs ''transcription''
               # NewTranscriber (getenv w ''GOOGLE_CLOUD_PROJECT_ID'') # evs
           \<and> list_all (\<lambda>ev. origin_of ev \<noteq> TextFile) evs"
proof -
  let ?Q = "\<lambda>ev. origin_of ev \<noteq> TextFile"
  define K :: "string \<Rightarrow> (run, unit) act"
    where "K = (\<lambda>t. bind (step2_minutes w t) (\<lambda>m. bind (step3_docs w m) (\<lambda>doc. step4_slack w doc)))"
  define H :: "exn \<Rightarrow> (run, unit) act"
    where "H = (\<lambda>e. modify (\<lambda>r. r\<lparr>status := ''error'', error := Some (str_exn e),
                                  traceback := Some (format_exc w e)\<rparr>))"
  define A :: "(run, string) act"
    where "A = bind (call (AudioFromFile file_path) (from_file w file_path)) (\<lambda>audio.
            bind (if duration_seconds audio \<ge> 60 then transcribe_long_audio w file_path
                  else transcribe_file w file_path) (\<lambda>t.
            bind (modify (\<lambda>r. r\<lparr>transcript := Some t\<rparr>)) (\<lambda>_. ret t)))"
  define r3 :: run
    where "r3 = new_result\<lparr>step := ''transcription'',
               events := events new_result @ [StepIs ''transcription'',
                           NewTranscriber (getenv w ''GOOGLE_CLOUD_PROJECT_ID'')]\<rparr>"
  have s1: "step1_transcription w file_path
              = bind (set_step ''transcription'') (\<lambda>_.
                bind (Transcriber w (getenv w ''GOOGLE_CLOUD_PROJECT_ID'')) (\<lambda>_. A))"
    using assms by (simp add: step1_transcription_def A_def)
  have p: "process_audio_file w file_path
             = snd (catch (bind (step1_transcription w file_path) K) H new_result)"
    by (simp add: process_audio_file_def K_def H_def)
  have run: "process_audio_file w file_path =
               snd (case speech_client w of Inl e \<Rightarrow> H e r3
                    | Inr u \<Rightarrow> catch (bind A K) H r3)"
    unfolding p s1
    by (cases "speech_client w")
       (simp_all add: Transcriber_def bind_def catch_def set_step_def call_def r3_def)
  have long: "appends ?Q (transcribe_long_audio w file_path :: (run, string) act)"
    by (rule appends_logs_mono [OF logs_transcribe_long_audio]) auto
  have short: "appends ?Q (transcribe_file w file_path :: (run, string) act)"
    by (rule appends_logs_mono [OF logs_transcribe_file]) auto
  have route: "appends ?Q (if duration_seconds audio \<ge> 60 then transcribe_long_audio w file_path
                  else (transcribe_file w file_path :: (run, string) act))" for audio :: "'a list"
    by (cases "duration_seconds audio \<ge> 60") (simp_all add: long short)
  have af: "appends ?Q (call (AudioFromFile file_path) (from_file w file_path) :: (run, 'a list) act)"
    by (rule appends_logs [OF logs_call]) simp
  have st: "appends ?Q (bind (modify (\<lambda>r. r\<lparr>transcript := Some t\<rparr>)) (\<lambda>_. ret t) :: (run, string) act)"
    for t
    by (intro appends_bind appends_modify appends_logs [OF logs_ret]) simp
  have A: "appends ?Q A"
    unfolding A_def by (intro appends_bind af route st)
  have K: "appends ?Q (K t)" for t
    unfolding K_def by (rule appends_mono [OF appends_later_steps]) auto
  have H: "appends ?Q (H e)" for e
    unfolding H_def by (rule appends_handler)
  have "appends ?Q (catch (bind A K) H)"
    by (intro appends_catch appends_bind A K H)
  then obtain evs1 where 1:
    "events (snd (catch (bind A K) H r3)) = events r3 @ evs1" "list_all ?Q evs1"
    unfolding appends_def by blast
  have r3e: "events r3 = [StepIs ''transcription'', StepIs ''transcription'',
                          NewTranscriber (getenv w ''GOOGLE_CLOUD_PROJECT_ID'')]"
    by (simp add: r3_def new_result_def)
  show ?thesis
  proof (cases "speech_client w")
    case (Inl e)
    then have "events (process_audio_file w file_path) = events r3"
      by (simp add: run H_def modify_def)
    then show ?thesis by (simp add: r3e)
  next
    case (Inr u)
    then have "events (process_audio_file w file_path) = events r3 @ evs1"
      using 1(1) by (simp add: run)
    then show ?thesis using 1(2) by (simp add: r3e)
  qed
qed

text \<open>
  C9. A name whose extension, the text after its last dot, is \<open>txt\<close> or \<open>md\<close> in
  another case (\<open>TXT\<close>, \<open>Md\<close>): \<open>allowed_file\<close> accepts the upload, since it lowers
  the extension before the test. \<open>is_text_file\<close> compares the ending as it is, so
  for the saved file, whose name still ends with that extension, it is false:
  the run builds the \<open>Transcriber\<close> right after the step starts, and no event of
  the run reads the file as text.
\<close>

theorem upper_case_text_extension:
  assumes "CHR ''.'' \<notin> set ext"
      and "py_lower ext \<in> {''txt'', ''md''}"
      and "ext \<notin> {''txt'', ''md''}"
      and "basename file_path = saved @ ext"
  shows "allowed_file (stem @ ''.'' @ ext)
       \<and> \<not> is_text_file (basename file_path)
       \<and> take 3 (events (process_audio_file w file_path))
           = [StepIs ''transcription'', StepIs ''transcription'',
              NewTranscriber (getenv w ''GOOGLE_CLOUD_PROJECT_ID'')]
       \<and> (\<forall>ev \<in> set (events (process_audio_file w file_path)). origin_of ev \<noteq> TextFile)"
proof -
  have e: "rsplit1 CHR ''.'' (stem @ ''.'' @ ext) ! 1 = ext"
    by (rule rsplit1_ext [OF assms(1)])
  have a: "py_lower ext \<in> ALLOWED_EXTENSIONS"
    using assms(2) by (auto simp: ALLOWED_EXTENSIONS_def)
  have d: "CHR ''.'' \<in> set (stem @ ''.'' @ ext)" by simp
  have ok: "allowed_file (stem @ ''.'' @ ext)"
    unfolding allowed_file_def e using a d by (rule conjI [rotated])
  have nt: "\<not> is_text_file (basename file_path)"
    unfolding assms(4) using assms(1-3) by (rule not_text_when_case_differs)
  obtain evs where evs:
    "events (process_audio_file w file_path)
       = StepIs ''transcription'' # StepIs ''transcription''
         # NewTranscriber (getenv w ''GOOGLE_CLOUD_PROJECT_ID'') # evs"
    "list_all (\<lambda>ev. origin_of ev \<noteq> TextFile) evs"
    using audio_run_events [OF nt, of w] by blast
  have "\<forall>ev \<in> set evs. origin_of ev \<noteq> TextFile"
    using evs(2) by (simp add: list_all_iff)
  then show ?thesis using ok nt by (simp add: evs(1))
qed

lemma lower_TXT: "py_lower ''TXT'' = ''txt''"
  by code_simp

theorem upper_case_text_extension_witness:
  "allowed_file ''Notes.TXT''
   \<and> \<not> is_text_file (basename ''uploads/20240131_Notes.TXT'')
   \<and> take 3 (events (process_audio_file demo_world ''uploads/20240131_Notes.TXT''))
       = [StepIs ''transcription'', StepIs ''transcription'', NewTranscriber None]
   \<and> filter (\<lambda>ev. origin_of ev = TextFile)
         (events (process_audio_file demo_world ''uploads/20240131_Notes.TXT'')) = []"
proof -
  have 1: "CHR ''.'' \<notin> set ''TXT''" by simp
  have 2: "py_lower ''TXT'' \<in> {''txt'', ''md''}" by (simp add: lower_TXT)
  have 3: "''TXT'' \<notin> {''txt'', ''md''}" by simp
  have 4: "basename ''uploads/20240131_Notes.TXT'' = ''20240131_Notes.'' @ ''TXT''"
    by (simp add: basename_def)
  note run = upper_case_text_extension [OF 1 2 3 4, of "''Notes''" demo_world]
  have ok: "allowed_file ''Notes.TXT''" using run by simp
  have nt: "\<not> is_text_file (basename ''uploads/20240131_Notes.TXT'')" using run by blast
  have first: "take 3 (events (process_audio_file demo_world ''uploads/20240131_Notes.TXT''))
       = [StepIs ''transcription'', StepIs ''transcription'', NewTranscriber None]"
    using run by (simp add: demo_world_def)
  have quiet: "\<forall>ev \<in> set (events (process_audio_file demo_world ''uploads/20240131_Notes.TXT'')).
                 origin_of ev \<noteq> TextFile"
    using run by blast
  have none: "filter (\<lambda>ev. origin_of ev = TextFile)
                (events (process_audio_file demo_world ''uploads/20240131_Notes.TXT'')) = []"
    using quiet by (simp add: filter_empty_conv)
  show ?thesis using ok nt first none by blast
qed

end
